theory Spec2Isabelle
  imports Main
begin

section \<open>Values, exceptions and wire messages\<close>

text \<open>
  Exceptions the code can meet: an unbound local of \<^verbatim>\<open>model_client\<close>, a subscript past the
  end of a command, the \<^verbatim>\<open>assert\<close> of \<^verbatim>\<open>check_done\<close>, a \<^verbatim>\<open>recv\<close> on a pipe whose other end is
  closed, the \<^verbatim>\<open>ValueError\<close> of an array asked for its truth value, and whatever else a
  collaborator (the RL model, the episodes buffer, an object received) raises.
\<close>

datatype pyerror =
    UnboundLocalError
  | IndexError
  | AssertionError
  | EOFError
  | ValueError
  | Raised string

text \<open>
  The two processes of \<^verbatim>\<open>python/magent/model.py\<close> exchange pickled Python objects over a
  \<^verbatim>\<open>multiprocessing.Pipe\<close>. The values that travel are strings (the tags, \<^verbatim>\<open>'done'\<close>, the
  policy, directories), integers, \<^verbatim>\<open>None\<close>, tuples, lists, and objects the protocol only
  passes through (numpy arrays, floats). The latter are \<open>PObj n t\<close>, with a token \<open>n\<close>; the
  code never looks inside them. It asks such an object one question only, in \<^verbatim>\<open>check_done\<close>:
  \<^verbatim>\<open>obj == 'done'\<close>, taken as a truth value. The answer is the object's own (its \<^verbatim>\<open>__eq__\<close>
  and the \<^verbatim>\<open>__bool__\<close> of the result), so the object carries it as \<open>t\<close>: \<open>Inr False\<close> for a
  float, \<open>Inl ValueError\<close> for a numpy array of several elements (compared element by
  element, the result has no truth value), \<open>Inr True\<close> for an array-like whose comparison
  comes out true.
\<close>

datatype pyval =
    PNone
  | PBool bool
  | PInt int
  | PStr string
  | PTuple "pyval list"
  | PList "pyval list"
  | PObj nat "pyerror + bool"

text \<open>
  Every message a \<^verbatim>\<open>ProcessingModel\<close> method sends is a Python list headed by a string tag:
  \<^verbatim>\<open>["act", raw_obs, ids, policy, eps]\<close> is \<open>Cmd ''act'' [raw_obs, ids, policy, eps]\<close>.
  The worker's end of the pipe is fed by those methods only, so a command is typed as a tag
  and the list of the remaining elements; \<^verbatim>\<open>cmd[0]\<close> is the tag and \<^verbatim>\<open>cmd[k]\<close> (k > 0) the
  element \<open>k - 1\<close> of the list, an \<^verbatim>\<open>IndexError\<close> when the list is too short.
\<close>

datatype command = Cmd string "pyval list"

datatype status = Running | Exited | Crashed pyerror

section \<open>Collaborators of \<^verbatim>\<open>model_client\<close>\<close>

text \<open>
  \<^verbatim>\<open>model_client(conn, sample_buffer_capacity, RLModel, model_args)\<close> receives the RL
  algorithm as a class and builds an \<^verbatim>\<open>EpisodesBuffer\<close> from \<^verbatim>\<open>magent.utility\<close>, a module
  that is not part of \<^verbatim>\<open>model.py\<close>. Both are parameters here. A method of the model takes
  the model's state \<open>'m\<close> and returns its result with the new state, or the exception it
  raises; \<^verbatim>\<open>train\<close> returns a pair, as \<^verbatim>\<open>BaseModel.train\<close> documents
  (\<^verbatim>\<open>total_loss, value = model.train(...)\<close>). \<^verbatim>\<open>record_step\<close> updates the buffer \<open>'b\<close> in
  place: it returns the updated buffer.
\<close>

record ('m, 'b) deps =
  rl_infer_action :: "'m \<Rightarrow> pyval \<Rightarrow> pyval \<Rightarrow> pyval \<Rightarrow> pyval \<Rightarrow> pyerror + (pyval \<times> 'm)"
  rl_train :: "'m \<Rightarrow> 'b \<Rightarrow> pyval \<Rightarrow> pyerror + ((pyval \<times> pyval) \<times> 'm)"
  rl_save :: "'m \<Rightarrow> pyval \<Rightarrow> pyval \<Rightarrow> pyerror + 'm"
  rl_load :: "'m \<Rightarrow> pyval \<Rightarrow> pyval \<Rightarrow> pyval \<Rightarrow> pyerror + 'm"
  EpisodesBuffer :: "int \<Rightarrow> 'b"
  record_step :: "'b \<Rightarrow> pyval \<Rightarrow> pyval \<Rightarrow> pyval \<Rightarrow> pyval \<Rightarrow> pyval \<Rightarrow> pyerror + 'b"
  sample_buffer_capacity :: int

section \<open>The state of a handle/worker pair\<close>

text \<open>
  \<open>model\<close>, \<open>sample_buffer\<close>, \<open>obs\<close>, \<open>ids\<close> and \<open>acts\<close> are the locals of \<^verbatim>\<open>model_client\<close>
  that live across iterations of its loop (\<open>None\<close>: not yet assigned). \<open>to_worker\<close> and
  \<open>to_handle\<close> are the two directions of the pipe, oldest message first. \<open>stdout\<close> is what
  the worker has printed.
\<close>

record ('m, 'b) system =
  model :: 'm
  sample_buffer :: 'b
  obs :: "pyval option"
  ids :: "pyval option"
  acts :: "pyval option"
  status :: status
  to_worker :: "command list"
  to_handle :: "pyval list"
  stdout :: "string list"

text \<open>Lines 232-233 and \<^verbatim>\<open>ProcessingModel.__init__\<close>: a fresh pair, with the model instance
  \<open>m0\<close> that \<^verbatim>\<open>RLModel(**model_args)\<close> built.\<close>

definition spawn :: "('m, 'b) deps \<Rightarrow> 'm \<Rightarrow> ('m, 'b) system" where
  "spawn D m0 =
     \<lparr> model = m0,
       sample_buffer = EpisodesBuffer D (sample_buffer_capacity D),
       obs = None, ids = None, acts = None,
       status = Running,
       to_worker = [], to_handle = [], stdout = [] \<rparr>"

section \<open>The worker: \<^verbatim>\<open>model_client\<close>\<close>

text \<open>\<^verbatim>\<open>conn.send(x)\<close> on the worker's end.\<close>

definition worker_send :: "('m, 'b) system \<Rightarrow> pyval \<Rightarrow> ('m, 'b) system" where
  "worker_send s x = s\<lparr>to_handle := to_handle s @ [x]\<rparr>"

text \<open>An uncaught exception ends the worker process; its locals die with it.\<close>

definition crash :: "pyerror \<Rightarrow> ('m, 'b) system \<Rightarrow> ('m, 'b) system" where
  "crash e s = s\<lparr>status := Crashed e\<rparr>"

text \<open>
  One iteration of the \<^verbatim>\<open>while True\<close> loop (lines 237-269) on the command \<^verbatim>\<open>conn.recv()\<close>
  returned, branch for branch. In the \<^verbatim>\<open>'sample'\<close> branch \<^verbatim>\<open>cmd[1]\<close> and \<^verbatim>\<open>cmd[2]\<close> are read
  before the names \<^verbatim>\<open>ids, obs, acts\<close> are.
\<close>

fun loop_body :: "('m, 'b) deps \<Rightarrow> ('m, 'b) system \<Rightarrow> command \<Rightarrow> ('m, 'b) system" where
  "loop_body D s (Cmd tag args) =
    (if tag = ''act'' then
       (case args of
          ob # i # policy # eps # _ \<Rightarrow>
            (case rl_infer_action D (model s) ob i policy eps of
               Inl e \<Rightarrow> crash e s
             | Inr (a, m') \<Rightarrow>
                 worker_send (s\<lparr>obs := Some ob, ids := Some i, acts := Some a, model := m'\<rparr>) a)
        | _ \<Rightarrow> crash IndexError s)
     else if tag = ''train'' then
       (case args of
          print_every # _ \<Rightarrow>
            (case rl_train D (model s) (sample_buffer s) print_every of
               Inl e \<Rightarrow> crash e s
             | Inr ((total_loss, val), m') \<Rightarrow>
                 worker_send
                   (s\<lparr>model := m',
                      sample_buffer := EpisodesBuffer D (sample_buffer_capacity D)\<rparr>)
                   (PTuple [total_loss, val]))
        | _ \<Rightarrow> crash IndexError s)
     else if tag = ''sample'' then
       (case args of
          rewards # alives # _ \<Rightarrow>
            (case (ids s, obs s, acts s) of
               (Some i, Some ob, Some a) \<Rightarrow>
                 (case record_step D (sample_buffer s) i ob a rewards alives of
                    Inl e \<Rightarrow> crash e s
                  | Inr b \<Rightarrow> worker_send (s\<lparr>sample_buffer := b\<rparr>) (PStr ''done''))
             | _ \<Rightarrow> crash UnboundLocalError s)
        | _ \<Rightarrow> crash IndexError s)
     else if tag = ''save'' then
       (case args of
          savedir # n_iter # _ \<Rightarrow>
            (case rl_save D (model s) savedir n_iter of
               Inl e \<Rightarrow> crash e s
             | Inr m' \<Rightarrow> worker_send (s\<lparr>model := m'\<rparr>) (PStr ''done''))
        | _ \<Rightarrow> crash IndexError s)
     else if tag = ''load'' then
       (case args of
          savedir # n_iter # name # _ \<Rightarrow>
            (case rl_load D (model s) savedir n_iter name of
               Inl e \<Rightarrow> crash e s
             | Inr m' \<Rightarrow> worker_send (s\<lparr>model := m'\<rparr>) (PStr ''done''))
        | _ \<Rightarrow> crash IndexError s)
     else if tag = ''quit'' then s\<lparr>status := Exited\<rparr>
     else s\<lparr>stdout := stdout s @ [''Error: Unknown command '' @ tag], status := Exited\<rparr>)"

text \<open>\<^verbatim>\<open>cmd[0]\<close>.\<close>

fun tag_of :: "command \<Rightarrow> string" where
  "tag_of (Cmd tag args) = tag"

text \<open>
  \<^verbatim>\<open>cmd = conn.recv()\<close> and the iteration it starts. \<open>None\<close>: the worker makes no move,
  because it has left its loop or because it waits in \<^verbatim>\<open>recv\<close> on an empty pipe.
\<close>

definition worker_step :: "('m, 'b) deps \<Rightarrow> ('m, 'b) system \<Rightarrow> ('m, 'b) system option" where
  "worker_step D s =
     (if status s = Running then
        (case to_worker s of
           [] \<Rightarrow> None
         | cmd # rest \<Rightarrow> Some (loop_body D (s\<lparr>to_worker := rest\<rparr>) cmd))
      else None)"

text \<open>No branch of the loop touches the worker's incoming pipe.\<close>

lemma to_worker_loop_body [simp]: "to_worker (loop_body D s c) = to_worker s"
  by (cases c)
     (simp add: crash_def worker_send_def split: list.split sum.split prod.split option.split)

lemma worker_step_shorter:
  "worker_step D s = Some s' \<Longrightarrow> length (to_worker s') < length (to_worker s)"
  by (auto simp: worker_step_def split: if_splits list.splits)

text \<open>
  The loop itself: the worker runs until it leaves the loop or waits for a command that is
  not there yet. Each iteration takes one command off the pipe.
\<close>

function worker_run :: "('m, 'b) deps \<Rightarrow> ('m, 'b) system \<Rightarrow> ('m, 'b) system" where
  "worker_run D s = (case worker_step D s of None \<Rightarrow> s | Some s' \<Rightarrow> worker_run D s')"
  by pat_completeness auto
termination
  by (relation "measure (\<lambda>(D, s). length (to_worker s))") (auto dest: worker_step_shorter)

declare worker_run.simps [simp del]

text \<open>
  The worker is a process of its own: between two calls of the supervisor it may have run
  any number of iterations. \<open>worker_progress D n\<close> lets it run \<open>n\<close> of them (fewer when it
  stops or waits before).
\<close>

fun worker_progress :: "('m, 'b) deps \<Rightarrow> nat \<Rightarrow> ('m, 'b) system \<Rightarrow> ('m, 'b) system" where
  "worker_progress D 0 s = s"
| "worker_progress D (Suc n) s =
     (case worker_step D s of None \<Rightarrow> s | Some s' \<Rightarrow> worker_progress D n s')"

section \<open>The supervisor's proxy: \<^verbatim>\<open>ProcessingModel\<close>\<close>

text \<open>
  A call on the proxy returns a value, raises, or never returns (\<open>Blocks\<close>): \<^verbatim>\<open>recv\<close> on
  the supervisor's end waits for as long as the pipe is empty and its other end is open.
\<close>

datatype ('m, 'b) result =
    Return pyval "('m, 'b) system"
  | Raise pyerror "('m, 'b) system"
  | Blocks

text \<open>
  \<^verbatim>\<open>self.conn.send(cmd)\<close>: the command is put on the pipe. Here \<^verbatim>\<open>send\<close> always succeeds. In
  the code it raises \<^verbatim>\<open>BrokenPipeError\<close> once the worker's process has ended; how soon after
  the worker has left its loop that happens is a matter of timing, which is not followed
  here: a command sent to a worker that has left its loop stays on the pipe, unread.
\<close>

definition conn_send :: "('m, 'b) system \<Rightarrow> command \<Rightarrow> ('m, 'b) system" where
  "conn_send s cmd = s\<lparr>to_worker := to_worker s @ [cmd]\<rparr>"

text \<open>
  \<^verbatim>\<open>self.conn.recv()\<close>: the oldest message of the pipe; when there is none, the supervisor
  sleeps while the worker runs, until the worker has sent one. When the pipe is empty and
  the worker can make no further move, either the worker itself waits for a command, and
  the call never returns; or the worker has left its loop (by \<^verbatim>\<open>break\<close> or by an exception):
  its process ends, and since \<^verbatim>\<open>ProcessingModel.__init__\<close> keeps \<^verbatim>\<open>pipe[0]\<close> only (lines
  90-99), the worker's end of the pipe is then closed and \<^verbatim>\<open>recv\<close> raises \<^verbatim>\<open>EOFError\<close>.
\<close>

function conn_recv :: "('m, 'b) deps \<Rightarrow> ('m, 'b) system \<Rightarrow> ('m, 'b) result" where
  "conn_recv D s =
     (case to_handle s of
        r # rs \<Rightarrow> Return r (s\<lparr>to_handle := rs\<rparr>)
      | [] \<Rightarrow>
          (case worker_step D s of
             Some s' \<Rightarrow> conn_recv D s'
           | None \<Rightarrow> if status s = Running then Blocks else Raise EOFError s))"
  by pat_completeness auto
termination
  by (relation "measure (\<lambda>(D, s). length (to_worker s))") (auto dest: worker_step_shorter)

declare conn_recv.simps [simp del]

text \<open>
  \<^verbatim>\<open>r == 'done'\<close> as the \<^verbatim>\<open>assert\<close> of line 210 takes it: a truth value, or the exception
  raised on the way. A string equals \<^verbatim>\<open>'done'\<close> when it is that string; \<^verbatim>\<open>None\<close>, a bool, an
  int, a tuple and a list equal no string; any other object answers for itself.
\<close>

fun eq_done :: "pyval \<Rightarrow> pyerror + bool" where
  "eq_done (PStr x) = Inr (x = ''done'')"
| "eq_done (PObj n t) = t"
| "eq_done r = Inr False"

text \<open>Line 208: \<^verbatim>\<open>check_done\<close>, \<^verbatim>\<open>assert self.conn.recv() == 'done'\<close>.\<close>

definition check_done :: "('m, 'b) deps \<Rightarrow> ('m, 'b) system \<Rightarrow> ('m, 'b) result" where
  "check_done D s =
     (case conn_recv D s of
        Return r s' \<Rightarrow>
          (case eq_done r of
             Inl e \<Rightarrow> Raise e s'
           | Inr truth \<Rightarrow> if truth then Return PNone s' else Raise AssertionError s')
      | Raise e s' \<Rightarrow> Raise e s'
      | Blocks \<Rightarrow> Blocks)"

text \<open>Line 101: \<^verbatim>\<open>sample_step(self, rewards, alives, block=True)\<close>.\<close>

definition sample_step ::
  "('m, 'b) deps \<Rightarrow> ('m, 'b) system \<Rightarrow> pyval \<Rightarrow> pyval \<Rightarrow> bool \<Rightarrow> ('m, 'b) result" where
  "sample_step D s rewards alives block =
     (let s1 = conn_send s (Cmd ''sample'' [rewards, alives])
      in if block then check_done D s1 else Return PNone s1)"

text \<open>Line 116: \<^verbatim>\<open>infer_action(self, raw_obs, ids, policy='e_greedy', eps=0, block=True)\<close>.\<close>

definition infer_action ::
  "('m, 'b) deps \<Rightarrow> ('m, 'b) system \<Rightarrow> pyval \<Rightarrow> pyval \<Rightarrow> pyval \<Rightarrow> pyval \<Rightarrow> bool \<Rightarrow> ('m, 'b) result" where
  "infer_action D s raw_obs idents policy eps block =
     (let s1 = conn_send s (Cmd ''act'' [raw_obs, idents, policy, eps])
      in if block then conn_recv D s1 else Return PNone s1)"

text \<open>Line 142: \<^verbatim>\<open>fetch_action\<close>, and line 165: \<^verbatim>\<open>fetch_train\<close>.\<close>

definition fetch_action :: "('m, 'b) deps \<Rightarrow> ('m, 'b) system \<Rightarrow> ('m, 'b) result" where
  "fetch_action D s = conn_recv D s"

definition fetch_train :: "('m, 'b) deps \<Rightarrow> ('m, 'b) system \<Rightarrow> ('m, 'b) result" where
  "fetch_train D s = conn_recv D s"

text \<open>Line 151: \<^verbatim>\<open>train(self, print_every=5000, block=True)\<close>; without \<^verbatim>\<open>block\<close> the
  function falls off its end and returns \<^verbatim>\<open>None\<close>.\<close>

definition train :: "('m, 'b) deps \<Rightarrow> ('m, 'b) system \<Rightarrow> pyval \<Rightarrow> bool \<Rightarrow> ('m, 'b) result" where
  "train D s print_every block =
     (let s1 = conn_send s (Cmd ''train'' [print_every])
      in if block then fetch_train D s1 else Return PNone s1)"

text \<open>Lines 177 and 192: \<^verbatim>\<open>save\<close> and \<^verbatim>\<open>load\<close>.\<close>

definition save ::
  "('m, 'b) deps \<Rightarrow> ('m, 'b) system \<Rightarrow> pyval \<Rightarrow> pyval \<Rightarrow> bool \<Rightarrow> ('m, 'b) result" where
  "save D s save_dir epoch block =
     (let s1 = conn_send s (Cmd ''save'' [save_dir, epoch])
      in if block then check_done D s1 else Return PNone s1)"

definition load ::
  "('m, 'b) deps \<Rightarrow> ('m, 'b) system \<Rightarrow> pyval \<Rightarrow> pyval \<Rightarrow> pyval \<Rightarrow> bool \<Rightarrow> ('m, 'b) result" where
  "load D s save_dir epoch name block =
     (let s1 = conn_send s (Cmd ''load'' [save_dir, epoch, name])
      in if block then check_done D s1 else Return PNone s1)"

text \<open>Line 212: \<^verbatim>\<open>quit\<close>.\<close>

definition quit :: "('m, 'b) system \<Rightarrow> ('m, 'b) result" where
  "quit s = Return PNone (conn_send s (Cmd ''quit'' []))"

text \<open>What the caller of a proxy method observes: the value returned or the exception,
  \<open>None\<close> when the call never returns.\<close>

definition outcome :: "('m, 'b) result \<Rightarrow> (pyerror + pyval) option" where
  "outcome r = (case r of Return v _ \<Rightarrow> Some (Inr v) | Raise e _ \<Rightarrow> Some (Inl e) | Blocks \<Rightarrow> None)"

section \<open>Command sequences\<close>

text \<open>
  The five commands that are answered, each with at least the elements its branch of the
  loop reads: \<^verbatim>\<open>cmd[1] .. cmd[4]\<close> for \<^verbatim>\<open>'act'\<close>, \<^verbatim>\<open>cmd[1]\<close> for \<^verbatim>\<open>'train'\<close>, \<^verbatim>\<open>cmd[1], cmd[2]\<close>
  for \<^verbatim>\<open>'sample'\<close> and \<^verbatim>\<open>'save'\<close>, \<^verbatim>\<open>cmd[1] .. cmd[3]\<close> for \<^verbatim>\<open>'load'\<close>. The methods of
  \<^verbatim>\<open>ProcessingModel\<close> send exactly these.
\<close>

fun recognized :: "command \<Rightarrow> bool" where
  "recognized (Cmd tag args) =
     (tag = ''act'' \<and> 4 \<le> length args
      \<or> tag = ''train'' \<and> 1 \<le> length args
      \<or> tag = ''sample'' \<and> 2 \<le> length args
      \<or> tag = ''save'' \<and> 2 \<le> length args
      \<or> tag = ''load'' \<and> 3 \<le> length args)"

text \<open>The names \<^verbatim>\<open>ids\<close>, \<^verbatim>\<open>obs\<close> and \<^verbatim>\<open>acts\<close> of \<^verbatim>\<open>model_client\<close> are all assigned.\<close>

definition bound :: "('m, 'b) system \<Rightarrow> bool" where
  "bound s \<longleftrightarrow> ids s \<noteq> None \<and> obs s \<noteq> None \<and> acts s \<noteq> None"

text \<open>
  In a sequence of commands, every \<^verbatim>\<open>'sample'\<close> comes after an \<^verbatim>\<open>'act'\<close>; \<open>inferred\<close> tells
  whether an \<^verbatim>\<open>'act'\<close> has been dispatched before the sequence starts.
\<close>

fun sample_after_infer :: "bool \<Rightarrow> command list \<Rightarrow> bool" where
  "sample_after_infer inferred [] = True"
| "sample_after_infer inferred (c # cs) =
     (if tag_of c = ''act'' then sample_after_infer True cs
      else if tag_of c = ''sample'' then inferred \<and> sample_after_infer inferred cs
      else sample_after_infer inferred cs)"

text \<open>No method of the model and no \<^verbatim>\<open>record_step\<close> ever raises.\<close>

definition never_raises :: "('m, 'b) deps \<Rightarrow> bool" where
  "never_raises D \<longleftrightarrow>
     (\<forall>m ob i policy eps. \<exists>a m'. rl_infer_action D m ob i policy eps = Inr (a, m'))
     \<and> (\<forall>m buf print_every. \<exists>total_loss val m'.
           rl_train D m buf print_every = Inr ((total_loss, val), m'))
     \<and> (\<forall>m savedir n_iter. \<exists>m'. rl_save D m savedir n_iter = Inr m')
     \<and> (\<forall>m savedir n_iter name. \<exists>m'. rl_load D m savedir n_iter name = Inr m')
     \<and> (\<forall>buf i ob a rewards alives. \<exists>buf'. record_step D buf i ob a rewards alives = Inr buf')"

text \<open>
  The response that answers a command dispatched in state \<open>s\<close>: the actions the model
  infers from the command's observation, ids, policy and eps; the pair the model's
  \<^verbatim>\<open>train\<close> returns on the current buffer; \<^verbatim>\<open>'done'\<close> for \<^verbatim>\<open>'sample'\<close>, \<^verbatim>\<open>'save'\<close> and
  \<^verbatim>\<open>'load'\<close>. Nothing answers \<^verbatim>\<open>'quit'\<close> or an unknown tag.
\<close>

fun answers :: "('m, 'b) deps \<Rightarrow> ('m, 'b) system \<Rightarrow> command \<Rightarrow> pyval \<Rightarrow> bool" where
  "answers D s (Cmd tag args) r =
     (if tag = ''act'' then
        (case args of
           ob # i # policy # eps # _ \<Rightarrow>
             (case rl_infer_action D (model s) ob i policy eps of
                Inl e \<Rightarrow> False
              | Inr (a, m') \<Rightarrow> r = a)
         | _ \<Rightarrow> False)
      else if tag = ''train'' then
        (case args of
           print_every # _ \<Rightarrow>
             (case rl_train D (model s) (sample_buffer s) print_every of
                Inl e \<Rightarrow> False
              | Inr ((total_loss, val), m') \<Rightarrow> r = PTuple [total_loss, val])
         | _ \<Rightarrow> False)
      else if tag = ''sample'' \<or> tag = ''save'' \<or> tag = ''load'' then r = PStr ''done''
      else False)"

section \<open>A concrete pair\<close>

text \<open>
  \<^verbatim>\<open>BaseModel\<close> (lines 6-59) is itself an RL model class: \<^verbatim>\<open>infer_action\<close>, \<^verbatim>\<open>save\<close> and
  \<^verbatim>\<open>load\<close> return \<^verbatim>\<open>None\<close>, \<^verbatim>\<open>train\<close> returns \<^verbatim>\<open>(0, 0)\<close>. It has no state.
\<close>

definition BaseModel_infer_action ::
  "unit \<Rightarrow> pyval \<Rightarrow> pyval \<Rightarrow> pyval \<Rightarrow> pyval \<Rightarrow> pyerror + (pyval \<times> unit)" where
  "BaseModel_infer_action m raw_obs idents policy eps = Inr (PNone, m)"

definition BaseModel_train :: "unit \<Rightarrow> 'b \<Rightarrow> pyval \<Rightarrow> pyerror + ((pyval \<times> pyval) \<times> unit)" where
  "BaseModel_train m buf print_every = Inr ((PInt 0, PInt 0), m)"

definition BaseModel_save :: "unit \<Rightarrow> pyval \<Rightarrow> pyval \<Rightarrow> pyerror + unit" where
  "BaseModel_save m save_dir epoch = Inr m"

definition BaseModel_load :: "unit \<Rightarrow> pyval \<Rightarrow> pyval \<Rightarrow> pyval \<Rightarrow> pyerror + unit" where
  "BaseModel_load m save_dir epoch name = Inr m"

text \<open>
  The theorems below hold for every buffer. To run them on an input, a plain list stands in
  for \<^verbatim>\<open>EpisodesBuffer\<close>: it keeps the recorded steps in order, each as the tuple of the five
  arguments of \<^verbatim>\<open>record_step\<close>, and ignores its capacity.
\<close>

definition journal_step ::
  "pyval list \<Rightarrow> pyval \<Rightarrow> pyval \<Rightarrow> pyval \<Rightarrow> pyval \<Rightarrow> pyval \<Rightarrow> pyerror + pyval list" where
  "journal_step buf i ob a rewards alives = Inr (buf @ [PTuple [i, ob, a, rewards, alives]])"

definition base_deps :: "(unit, pyval list) deps" where
  "base_deps =
     \<lparr> rl_infer_action = BaseModel_infer_action,
       rl_train = BaseModel_train,
       rl_save = BaseModel_save,
       rl_load = BaseModel_load,
       EpisodesBuffer = (\<lambda>capacity. []),
       record_step = journal_step,
       sample_buffer_capacity = 1000 \<rparr>"

section \<open>Unfolding the two loops\<close>

lemma worker_run_stop: "worker_step D s = None \<Longrightarrow> worker_run D s = s"
  by (simp add: worker_run.simps)

lemma worker_run_step: "worker_step D s = Some s' \<Longrightarrow> worker_run D s = worker_run D s'"
  by (simp add: worker_run.simps)

lemma conn_recv_pending: "to_handle s = r # rs \<Longrightarrow> conn_recv D s = Return r (s\<lparr>to_handle := rs\<rparr>)"
  by (simp add: conn_recv.simps)

lemma conn_recv_wait:
  "to_handle s = [] \<Longrightarrow> worker_step D s = Some s' \<Longrightarrow> conn_recv D s = conn_recv D s'"
  by (simp add: conn_recv.simps)



text \<open>The worker only ever appends to the pipe towards the supervisor, so a response that
  is pending stays the next one to be read however far the worker has run.\<close>

lemma to_handle_loop_body: "\<exists>xs. to_handle (loop_body D s c) = to_handle s @ xs"
  by (cases c)
     (simp add: crash_def worker_send_def split: list.split sum.split prod.split option.split)

lemma to_handle_worker_step:
  "worker_step D s = Some s' \<Longrightarrow> \<exists>xs. to_handle s' = to_handle s @ xs"
  using to_handle_loop_body [of D "s\<lparr>to_worker := tl (to_worker s)\<rparr>" "hd (to_worker s)"]
  by (auto simp: worker_step_def split: if_splits list.splits)

lemma conn_recv_after_step:
  assumes "worker_step D s = Some s'"
  shows "outcome (conn_recv D s') = outcome (conn_recv D s)"
proof (cases "to_handle s")
  case Nil
  with assms show ?thesis by (simp add: conn_recv_wait)
next
  case (Cons r rs)
  from to_handle_worker_step [OF assms] obtain xs where "to_handle s' = to_handle s @ xs" ..
  with Cons have "to_handle s' = r # (rs @ xs)" by simp
  with Cons show ?thesis by (simp add: conn_recv_pending outcome_def)
qed

lemma conn_recv_after_progress:
  "outcome (conn_recv D (worker_progress D n s)) = outcome (conn_recv D s)"
proof (induction n arbitrary: s)
  case 0
  show ?case by simp
next
  case (Suc n)
  show ?case
  proof (cases "worker_step D s")
    case None
    then show ?thesis by simp
  next
    case (Some s')
    with Suc [of s'] conn_recv_after_step [OF Some] show ?thesis by simp
  qed
qed

lemma conn_recv_answer:
  assumes "status s = Running" and "to_handle s = []" and "to_worker s = [c]"
    and "to_handle (loop_body D (s\<lparr>to_worker := []\<rparr>) c) = [r]"
  shows "conn_recv D s = Return r ((loop_body D (s\<lparr>to_worker := []\<rparr>) c)\<lparr>to_handle := []\<rparr>)"
proof -
  from assms have "worker_step D s = Some (loop_body D (s\<lparr>to_worker := []\<rparr>) c)"
    by (simp add: worker_step_def)
  with assms(2) have "conn_recv D s = conn_recv D (loop_body D (s\<lparr>to_worker := []\<rparr>) c)"
    by (rule conn_recv_wait)
  with assms(4) show ?thesis by (simp add: conn_recv_pending)
qed

text \<open>Only the \<^verbatim>\<open>'act'\<close> branch assigns \<^verbatim>\<open>obs\<close>, \<^verbatim>\<open>ids\<close> and \<^verbatim>\<open>acts\<close>; a worker that is
  still running after \<open>n\<close> iterations has taken \<open>n\<close> commands off the pipe.\<close>

lemma locals_loop_body:
  "tag_of c \<noteq> ''act'' \<Longrightarrow>
     ids (loop_body D s c) = ids s \<and> obs (loop_body D s c) = obs s \<and> acts (loop_body D s c) = acts s"
  by (cases c)
     (simp add: crash_def worker_send_def split: list.split sum.split prod.split option.split)

lemma worker_step_Some:
  "worker_step D s = Some s' \<longleftrightarrow>
     status s = Running \<and> to_worker s \<noteq> []
     \<and> s' = loop_body D (s\<lparr>to_worker := tl (to_worker s)\<rparr>) (hd (to_worker s))"
  by (auto simp: worker_step_def split: list.splits)

lemma worker_step_None: "worker_step D s = None \<longleftrightarrow> status s \<noteq> Running \<or> to_worker s = []"
  by (auto simp: worker_step_def split: list.splits)

lemma locals_worker_progress:
  "\<forall>c \<in> set (take n (to_worker s)). tag_of c \<noteq> ''act'' \<Longrightarrow>
     ids (worker_progress D n s) = ids s \<and> obs (worker_progress D n s) = obs s
     \<and> acts (worker_progress D n s) = acts s"
proof (induction n arbitrary: s)
  case 0
  show ?case by simp
next
  case (Suc n)
  show ?case
  proof (cases "worker_step D s")
    case None
    then show ?thesis by simp
  next
    case (Some s')
    then obtain c cs where q: "to_worker s = c # cs" and s': "s' = loop_body D (s\<lparr>to_worker := cs\<rparr>) c"
      by (cases "to_worker s") (auto simp: worker_step_Some)
    from Suc.prems q have c: "tag_of c \<noteq> ''act''" and cs: "\<forall>c \<in> set (take n cs). tag_of c \<noteq> ''act''"
      by simp_all
    from s' have "to_worker s' = cs" by simp
    with cs Suc.IH [of s'] have "ids (worker_progress D n s') = ids s' \<and> obs (worker_progress D n s') = obs s'
     \<and> acts (worker_progress D n s') = acts s'"
      by simp
    with locals_loop_body [OF c, of D "s\<lparr>to_worker := cs\<rparr>"] s' Some show ?thesis
      by simp
  qed
qed

lemma queue_worker_progress:
  "status (worker_progress D n s) = Running \<Longrightarrow> n \<le> length (to_worker s) \<Longrightarrow>
     to_worker (worker_progress D n s) = drop n (to_worker s)"
proof (induction n arbitrary: s)
  case 0
  show ?case by simp
next
  case (Suc n)
  show ?case
  proof (cases "worker_step D s")
    case None
    with Suc.prems show ?thesis by (auto simp: worker_step_None)
  next
    case (Some s')
    then obtain c cs where q: "to_worker s = c # cs" and s': "s' = loop_body D (s\<lparr>to_worker := cs\<rparr>) c"
      by (cases "to_worker s") (auto simp: worker_step_Some)
    from s' have "to_worker s' = cs" by simp
    with Suc.prems Suc.IH [of s'] Some q show ?thesis by simp
  qed
qed

lemma worker_run_progress: "worker_run D (worker_progress D n s) = worker_run D s"
proof (induction n arbitrary: s)
  case 0
  show ?case by simp
next
  case (Suc n)
  then show ?case
    by (cases "worker_step D s") (simp_all add: worker_run_step)
qed

lemma worker_progress_Suc:
  "worker_progress D (Suc n) s =
     (case worker_step D (worker_progress D n s) of
        None \<Rightarrow> worker_progress D n s
      | Some s' \<Rightarrow> s')"
proof (induction n arbitrary: s)
  case 0
  show ?case by (simp split: option.split)
next
  case (Suc n)
  show ?case
  proof (cases "worker_step D s")
    case None
    then show ?thesis by simp
  next
    case (Some s')
    have a: "worker_progress D (Suc (Suc n)) s = worker_progress D (Suc n) s'"
      by (subst worker_progress.simps(2)) (simp only: Some option.case)
    have b: "worker_progress D (Suc n) s = worker_progress D n s'"
      by (subst worker_progress.simps(2)) (simp only: Some option.case)
    from Suc [of s'] show ?thesis by (simp only: a b)
  qed
qed

section \<open>The worker leaves its loop\<close>

text \<open>
  Claim C7. A running worker that receives a command whose tag is none of \<^verbatim>\<open>'act'\<close>,
  \<^verbatim>\<open>'train'\<close>, \<^verbatim>\<open>'sample'\<close>, \<^verbatim>\<open>'save'\<close>, \<^verbatim>\<open>'load'\<close>, \<^verbatim>\<open>'quit'\<close> prints
  \<^verbatim>\<open>Error: Unknown command <tag>\<close> and leaves its loop: it sends nothing, and it reads no
  later command, whatever is still in the pipe.
\<close>

theorem unknown_tag_exits:
  assumes "status s = Running"
    and "to_worker s = Cmd tag args # rest"
    and "tag \<notin> {''act'', ''train'', ''sample'', ''save'', ''load'', ''quit''}"
  shows "worker_run D s =
           s\<lparr>to_worker := rest,
             stdout := stdout s @ [''Error: Unknown command '' @ tag],
             status := Exited\<rparr>
         \<and> to_handle (worker_run D s) = to_handle s
         \<and> worker_step D (worker_run D s) = None"
proof -
  let ?s' = "s\<lparr>to_worker := rest,
             stdout := stdout s @ [''Error: Unknown command '' @ tag],
             status := Exited\<rparr>"
  from assms have step: "worker_step D s = Some ?s'"
    by (simp add: worker_step_def)
  have stop: "worker_step D ?s' = None"
    by (simp add: worker_step_def)
  from step stop have "worker_run D s = ?s'"
    by (simp add: worker_run_step worker_run_stop)
  with stop show ?thesis by simp
qed

theorem unknown_tag_exits_witness:
  "worker_run base_deps ((spawn base_deps ())\<lparr>to_worker := [Cmd ''reset'' [PInt 1], Cmd ''train'' [PInt 5]]\<rparr>) =
     (spawn base_deps ())\<lparr>to_worker := [Cmd ''train'' [PInt 5]],
        stdout := [''Error: Unknown command reset''], status := Exited\<rparr>
   \<and> to_handle (worker_run base_deps ((spawn base_deps ())\<lparr>to_worker := [Cmd ''reset'' [PInt 1], Cmd ''train'' [PInt 5]]\<rparr>)) = []"
  using unknown_tag_exits [of "(spawn base_deps ())\<lparr>to_worker := [Cmd ''reset'' [PInt 1], Cmd ''train'' [PInt 5]]\<rparr>"
      "''reset''" "[PInt 1]" "[Cmd ''train'' [PInt 5]]" base_deps]
  by (simp add: spawn_def)

text \<open>
  Claim C8. \<^verbatim>\<open>quit()\<close> puts \<^verbatim>\<open>["quit"]\<close> on the pipe and returns: it reads nothing and does
  not wait for the worker. A running worker that receives \<^verbatim>\<open>quit\<close> leaves its loop and sends
  nothing.
\<close>

theorem quit_no_response:
  "quit s = Return PNone (s\<lparr>to_worker := to_worker s @ [Cmd ''quit'' []]\<rparr>)
   \<and> (status s = Running \<and> to_worker s = Cmd ''quit'' args # rest \<longrightarrow>
        worker_run D s = s\<lparr>to_worker := rest, status := Exited\<rparr>
        \<and> to_handle (worker_run D s) = to_handle s
        \<and> worker_step D (worker_run D s) = None)"
proof -
  have "quit s = Return PNone (s\<lparr>to_worker := to_worker s @ [Cmd ''quit'' []]\<rparr>)"
    by (simp add: quit_def conn_send_def)
  moreover
  { assume run: "status s = Running" and q: "to_worker s = Cmd ''quit'' args # rest"
    let ?s' = "s\<lparr>to_worker := rest, status := Exited\<rparr>"
    from run q have step: "worker_step D s = Some ?s'"
      by (simp add: worker_step_def)
    have stop: "worker_step D ?s' = None"
      by (simp add: worker_step_def)
    from step stop have "worker_run D s = ?s'"
      by (simp add: worker_run_step worker_run_stop)
    with stop have "worker_run D s = ?s' \<and> to_handle (worker_run D s) = to_handle s
        \<and> worker_step D (worker_run D s) = None"
      by simp }
  ultimately show ?thesis by blast
qed

theorem quit_no_response_witness:
  "quit (spawn base_deps ()) = Return PNone ((spawn base_deps ())\<lparr>to_worker := [Cmd ''quit'' []]\<rparr>)
   \<and> worker_run base_deps ((spawn base_deps ())\<lparr>to_worker := [Cmd ''quit'' []]\<rparr>)
       = (spawn base_deps ())\<lparr>status := Exited\<rparr>
   \<and> to_handle (worker_run base_deps ((spawn base_deps ())\<lparr>to_worker := [Cmd ''quit'' []]\<rparr>)) = []"
  using quit_no_response [of "spawn base_deps ()"]
    quit_no_response [of "(spawn base_deps ())\<lparr>to_worker := [Cmd ''quit'' []]\<rparr>" "[]" "[]" base_deps]
  by (simp add: spawn_def)

section \<open>The completion marker\<close>




section \<open>Blocking and non-blocking calls\<close>

text \<open>
  Claim C5. From the same state of the pair (the same model state in particular) and with
  the same arguments, \<^verbatim>\<open>infer_action(..., block=False)\<close> followed by \<^verbatim>\<open>fetch_action()\<close>
  gives what \<^verbatim>\<open>infer_action(..., block=True)\<close> gives, however many iterations the worker
  has run between the two calls; on an idle pair whose model answers \<open>a\<close>, that is \<open>a\<close>.
\<close>

theorem nonblocking_infer_then_fetch:
  "infer_action D s raw_obs idents policy eps False =
     Return PNone (conn_send s (Cmd ''act'' [raw_obs, idents, policy, eps]))
   \<and> fetch_action D (conn_send s (Cmd ''act'' [raw_obs, idents, policy, eps])) =
       infer_action D s raw_obs idents policy eps True
   \<and> (\<forall>n. outcome (fetch_action D
              (worker_progress D n (conn_send s (Cmd ''act'' [raw_obs, idents, policy, eps])))) =
            outcome (infer_action D s raw_obs idents policy eps True))
   \<and> (status s = Running \<and> to_worker s = [] \<and> to_handle s = []
        \<and> rl_infer_action D (model s) raw_obs idents policy eps = Inr (a, m') \<longrightarrow>
        outcome (infer_action D s raw_obs idents policy eps True) = Some (Inr a))"
proof -
  let ?c = "Cmd ''act'' [raw_obs, idents, policy, eps]"
  have nb: "infer_action D s raw_obs idents policy eps False = Return PNone (conn_send s ?c)"
    by (simp add: infer_action_def)
  have same: "fetch_action D (conn_send s ?c) = infer_action D s raw_obs idents policy eps True"
    by (simp add: infer_action_def fetch_action_def)
  have sched: "outcome (fetch_action D (worker_progress D n (conn_send s ?c))) =
      outcome (infer_action D s raw_obs idents policy eps True)" for n
  proof -
    have "outcome (fetch_action D (worker_progress D n (conn_send s ?c))) =
        outcome (conn_recv D (worker_progress D n (conn_send s ?c)))"
      by (simp only: fetch_action_def)
    also have "\<dots> = outcome (conn_recv D (conn_send s ?c))"
      by (rule conn_recv_after_progress)
    also have "\<dots> = outcome (fetch_action D (conn_send s ?c))"
      by (simp only: fetch_action_def)
    finally show ?thesis by (simp only: same)
  qed
  have quiet: "outcome (infer_action D s raw_obs idents policy eps True) = Some (Inr a)"
    if "status s = Running" "to_worker s = []" "to_handle s = []"
      "rl_infer_action D (model s) raw_obs idents policy eps = Inr (a, m')"
  proof -
    from that have "conn_recv D (conn_send s ?c) =
        Return a ((loop_body D ((conn_send s ?c)\<lparr>to_worker := []\<rparr>) ?c)\<lparr>to_handle := []\<rparr>)"
      by (intro conn_recv_answer) (simp_all add: conn_send_def worker_send_def)
    then show ?thesis by (simp add: infer_action_def outcome_def)
  qed
  from nb same sched quiet show ?thesis by blast
qed

theorem nonblocking_infer_then_fetch_witness:
  "outcome (fetch_action base_deps (worker_progress base_deps 1
      (conn_send (spawn base_deps ()) (Cmd ''act'' [PInt 1, PInt 2, PStr ''e_greedy'', PInt 0]))))
     = Some (Inr PNone)
   \<and> outcome (infer_action base_deps (spawn base_deps ()) (PInt 1) (PInt 2) (PStr ''e_greedy'') (PInt 0) True)
     = Some (Inr PNone)"
proof -
  let ?s = "spawn base_deps () :: (unit, pyval list) system"
  let ?c = "Cmd ''act'' [PInt 1, PInt 2, PStr ''e_greedy'', PInt 0]"
  note inst = nonblocking_infer_then_fetch [of base_deps ?s "PInt 1" "PInt 2"
      "PStr ''e_greedy''" "PInt 0" PNone "()"]
  have quiet: "status ?s = Running \<and> to_worker ?s = [] \<and> to_handle ?s = []
      \<and> rl_infer_action base_deps (model ?s) (PInt 1) (PInt 2) (PStr ''e_greedy'') (PInt 0)
          = Inr (PNone, ())"
    by (simp add: spawn_def base_deps_def BaseModel_infer_action_def)
  with inst have blocking:
    "outcome (infer_action base_deps ?s (PInt 1) (PInt 2) (PStr ''e_greedy'') (PInt 0) True)
       = Some (Inr PNone)"
    by blast
  from inst have "outcome (fetch_action base_deps (worker_progress base_deps 1 (conn_send ?s ?c)))
       = outcome (infer_action base_deps ?s (PInt 1) (PInt 2) (PStr ''e_greedy'') (PInt 0) True)"
    by blast
  with blocking show ?thesis by simp
qed

text \<open>
  Claim C10, as amended. \<^verbatim>\<open>infer_action(..., block=False)\<close> and \<^verbatim>\<open>train(..., block=False)\<close>
  return \<^verbatim>\<open>None\<close> after their \<^verbatim>\<open>send\<close>: the pipe towards the supervisor and the worker are as
  they were. So do the other non-blocking calls and \<^verbatim>\<open>quit\<close>. The calls that read the pipe,
  once each, are \<^verbatim>\<open>fetch_action\<close>, \<^verbatim>\<open>fetch_train\<close> and \<^verbatim>\<open>check_done\<close>, and the blocking calls:
  a blocking \<^verbatim>\<open>infer_action\<close> by the \<^verbatim>\<open>recv\<close> of line 138, a blocking \<^verbatim>\<open>train\<close> through
  \<^verbatim>\<open>fetch_train\<close>, a blocking \<^verbatim>\<open>sample_step\<close>, \<^verbatim>\<open>save\<close> or \<^verbatim>\<open>load\<close> through \<^verbatim>\<open>check_done\<close>. A
  pending response is taken by whichever of them comes next. On an idle pair the response
  to a non-blocking \<^verbatim>\<open>infer_action\<close> or \<^verbatim>\<open>train\<close> is what the next \<^verbatim>\<open>fetch_action\<close>, respectively
  \<^verbatim>\<open>fetch_train\<close>, returns.
\<close>

theorem nonblocking_calls_do_not_read:
  "infer_action D s raw_obs idents policy eps False =
     Return PNone (s\<lparr>to_worker := to_worker s @ [Cmd ''act'' [raw_obs, idents, policy, eps]]\<rparr>)
   \<and> train D s print_every False =
     Return PNone (s\<lparr>to_worker := to_worker s @ [Cmd ''train'' [print_every]]\<rparr>)
   \<and> sample_step D s rewards alives False =
     Return PNone (s\<lparr>to_worker := to_worker s @ [Cmd ''sample'' [rewards, alives]]\<rparr>)
   \<and> save D s save_dir epoch False =
     Return PNone (s\<lparr>to_worker := to_worker s @ [Cmd ''save'' [save_dir, epoch]]\<rparr>)
   \<and> load D s save_dir epoch name False =
     Return PNone (s\<lparr>to_worker := to_worker s @ [Cmd ''load'' [save_dir, epoch, name]]\<rparr>)
   \<and> quit s = Return PNone (s\<lparr>to_worker := to_worker s @ [Cmd ''quit'' []]\<rparr>)
   \<and> fetch_action D s = conn_recv D s
   \<and> fetch_train D s = conn_recv D s
   \<and> infer_action D s raw_obs idents policy eps True =
     conn_recv D (s\<lparr>to_worker := to_worker s @ [Cmd ''act'' [raw_obs, idents, policy, eps]]\<rparr>)
   \<and> train D s print_every True =
     conn_recv D (s\<lparr>to_worker := to_worker s @ [Cmd ''train'' [print_every]]\<rparr>)
   \<and> sample_step D s rewards alives True =
     check_done D (s\<lparr>to_worker := to_worker s @ [Cmd ''sample'' [rewards, alives]]\<rparr>)
   \<and> save D s save_dir epoch True =
     check_done D (s\<lparr>to_worker := to_worker s @ [Cmd ''save'' [save_dir, epoch]]\<rparr>)
   \<and> load D s save_dir epoch name True =
     check_done D (s\<lparr>to_worker := to_worker s @ [Cmd ''load'' [save_dir, epoch, name]]\<rparr>)
   \<and> (\<forall>r rs. to_handle s = r # rs \<longrightarrow>
         conn_recv D s = Return r (s\<lparr>to_handle := rs\<rparr>)
         \<and> infer_action D s raw_obs idents policy eps True =
             Return r (s\<lparr>to_worker := to_worker s @ [Cmd ''act'' [raw_obs, idents, policy, eps]],
                         to_handle := rs\<rparr>)
         \<and> train D s print_every True =
             Return r (s\<lparr>to_worker := to_worker s @ [Cmd ''train'' [print_every]],
                         to_handle := rs\<rparr>)
         \<and> check_done D s =
             (case eq_done r of
                Inl e \<Rightarrow> Raise e (s\<lparr>to_handle := rs\<rparr>)
              | Inr truth \<Rightarrow>
                  if truth then Return PNone (s\<lparr>to_handle := rs\<rparr>)
                  else Raise AssertionError (s\<lparr>to_handle := rs\<rparr>)))
   \<and> (status s = Running \<and> to_worker s = [] \<and> to_handle s = []
        \<and> rl_infer_action D (model s) raw_obs idents policy eps = Inr (a, m') \<longrightarrow>
        fetch_action D (s\<lparr>to_worker := to_worker s @ [Cmd ''act'' [raw_obs, idents, policy, eps]]\<rparr>) =
          Return a (s\<lparr>obs := Some raw_obs, ids := Some idents, acts := Some a, model := m'\<rparr>))
   \<and> (status s = Running \<and> to_worker s = [] \<and> to_handle s = []
        \<and> rl_train D (model s) (sample_buffer s) print_every = Inr ((total_loss, val), m') \<longrightarrow>
        fetch_train D (s\<lparr>to_worker := to_worker s @ [Cmd ''train'' [print_every]]\<rparr>) =
          Return (PTuple [total_loss, val])
            (s\<lparr>model := m', sample_buffer := EpisodesBuffer D (sample_buffer_capacity D)\<rparr>))"
proof -
  let ?act = "Cmd ''act'' [raw_obs, idents, policy, eps]"
  let ?train = "Cmd ''train'' [print_every]"
  have silent:
    "infer_action D s raw_obs idents policy eps False =
       Return PNone (s\<lparr>to_worker := to_worker s @ [?act]\<rparr>)"
    "train D s print_every False = Return PNone (s\<lparr>to_worker := to_worker s @ [?train]\<rparr>)"
    "sample_step D s rewards alives False =
       Return PNone (s\<lparr>to_worker := to_worker s @ [Cmd ''sample'' [rewards, alives]]\<rparr>)"
    "save D s save_dir epoch False =
       Return PNone (s\<lparr>to_worker := to_worker s @ [Cmd ''save'' [save_dir, epoch]]\<rparr>)"
    "load D s save_dir epoch name False =
       Return PNone (s\<lparr>to_worker := to_worker s @ [Cmd ''load'' [save_dir, epoch, name]]\<rparr>)"
    "quit s = Return PNone (s\<lparr>to_worker := to_worker s @ [Cmd ''quit'' []]\<rparr>)"
    by (simp_all add: infer_action_def train_def sample_step_def save_def load_def quit_def
        conn_send_def)
  have readers:
    "fetch_action D s = conn_recv D s"
    "fetch_train D s = conn_recv D s"
    "infer_action D s raw_obs idents policy eps True =
       conn_recv D (s\<lparr>to_worker := to_worker s @ [?act]\<rparr>)"
    "train D s print_every True = conn_recv D (s\<lparr>to_worker := to_worker s @ [?train]\<rparr>)"
    "sample_step D s rewards alives True =
       check_done D (s\<lparr>to_worker := to_worker s @ [Cmd ''sample'' [rewards, alives]]\<rparr>)"
    "save D s save_dir epoch True =
       check_done D (s\<lparr>to_worker := to_worker s @ [Cmd ''save'' [save_dir, epoch]]\<rparr>)"
    "load D s save_dir epoch name True =
       check_done D (s\<lparr>to_worker := to_worker s @ [Cmd ''load'' [save_dir, epoch, name]]\<rparr>)"
    by (simp_all add: infer_action_def train_def sample_step_def save_def load_def
        fetch_action_def fetch_train_def conn_send_def)
  have pending:
    "conn_recv D s = Return r (s\<lparr>to_handle := rs\<rparr>)
     \<and> infer_action D s raw_obs idents policy eps True =
         Return r (s\<lparr>to_worker := to_worker s @ [?act], to_handle := rs\<rparr>)
     \<and> train D s print_every True =
         Return r (s\<lparr>to_worker := to_worker s @ [?train], to_handle := rs\<rparr>)
     \<and> check_done D s =
         (case eq_done r of
            Inl e \<Rightarrow> Raise e (s\<lparr>to_handle := rs\<rparr>)
          | Inr truth \<Rightarrow>
              if truth then Return PNone (s\<lparr>to_handle := rs\<rparr>)
              else Raise AssertionError (s\<lparr>to_handle := rs\<rparr>))"
    if "to_handle s = r # rs" for r rs
    using that by (simp add: readers check_done_def conn_recv_pending)
  have later_infer:
    "fetch_action D (s\<lparr>to_worker := to_worker s @ [?act]\<rparr>) =
       Return a (s\<lparr>obs := Some raw_obs, ids := Some idents, acts := Some a, model := m'\<rparr>)"
    if "status s = Running" "to_worker s = []" "to_handle s = []"
      "rl_infer_action D (model s) raw_obs idents policy eps = Inr (a, m')"
  proof -
    let ?s1 = "s\<lparr>to_worker := to_worker s @ [?act]\<rparr>"
    from that have "conn_recv D ?s1 =
        Return a ((loop_body D (?s1\<lparr>to_worker := []\<rparr>) ?act)\<lparr>to_handle := []\<rparr>)"
      by (intro conn_recv_answer) (simp_all add: worker_send_def)
    with that have "conn_recv D ?s1 =
        Return a (s\<lparr>obs := Some raw_obs, ids := Some idents, acts := Some a, model := m'\<rparr>)"
      by (simp add: worker_send_def)
    then show ?thesis by (simp add: fetch_action_def)
  qed
  have later_train:
    "fetch_train D (s\<lparr>to_worker := to_worker s @ [?train]\<rparr>) =
       Return (PTuple [total_loss, val])
         (s\<lparr>model := m', sample_buffer := EpisodesBuffer D (sample_buffer_capacity D)\<rparr>)"
    if "status s = Running" "to_worker s = []" "to_handle s = []"
      "rl_train D (model s) (sample_buffer s) print_every = Inr ((total_loss, val), m')"
  proof -
    let ?s1 = "s\<lparr>to_worker := to_worker s @ [?train]\<rparr>"
    from that have "conn_recv D ?s1 =
        Return (PTuple [total_loss, val])
          ((loop_body D (?s1\<lparr>to_worker := []\<rparr>) ?train)\<lparr>to_handle := []\<rparr>)"
      by (intro conn_recv_answer) (simp_all add: worker_send_def)
    with that have "conn_recv D ?s1 =
        Return (PTuple [total_loss, val])
          (s\<lparr>model := m', sample_buffer := EpisodesBuffer D (sample_buffer_capacity D)\<rparr>)"
      by (simp add: worker_send_def)
    then show ?thesis by (simp add: fetch_train_def)
  qed
  have taken: "\<forall>r rs. to_handle s = r # rs \<longrightarrow>
         conn_recv D s = Return r (s\<lparr>to_handle := rs\<rparr>)
         \<and> infer_action D s raw_obs idents policy eps True =
             Return r (s\<lparr>to_worker := to_worker s @ [?act], to_handle := rs\<rparr>)
         \<and> train D s print_every True =
             Return r (s\<lparr>to_worker := to_worker s @ [?train], to_handle := rs\<rparr>)
         \<and> check_done D s =
             (case eq_done r of
                Inl e \<Rightarrow> Raise e (s\<lparr>to_handle := rs\<rparr>)
              | Inr truth \<Rightarrow>
                  if truth then Return PNone (s\<lparr>to_handle := rs\<rparr>)
                  else Raise AssertionError (s\<lparr>to_handle := rs\<rparr>))"
    using pending by blast
  have fetched: "status s = Running \<and> to_worker s = [] \<and> to_handle s = []
        \<and> rl_infer_action D (model s) raw_obs idents policy eps = Inr (a, m') \<longrightarrow>
        fetch_action D (s\<lparr>to_worker := to_worker s @ [?act]\<rparr>) =
          Return a (s\<lparr>obs := Some raw_obs, ids := Some idents, acts := Some a, model := m'\<rparr>)"
    using later_infer by blast
  have trained: "status s = Running \<and> to_worker s = [] \<and> to_handle s = []
        \<and> rl_train D (model s) (sample_buffer s) print_every = Inr ((total_loss, val), m') \<longrightarrow>
        fetch_train D (s\<lparr>to_worker := to_worker s @ [?train]\<rparr>) =
          Return (PTuple [total_loss, val])
            (s\<lparr>model := m', sample_buffer := EpisodesBuffer D (sample_buffer_capacity D)\<rparr>)"
    using later_train by blast
  show ?thesis
    by (intro conjI) (rule silent readers taken fetched trained)+
qed

theorem nonblocking_calls_do_not_read_witness:
  "fetch_action base_deps
     ((spawn base_deps ())\<lparr>to_worker := [Cmd ''act'' [PInt 1, PInt 2, PStr ''greedy'', PInt 0]]\<rparr>)
     = Return PNone ((spawn base_deps ())\<lparr>obs := Some (PInt 1), ids := Some (PInt 2), acts := Some PNone\<rparr>)
   \<and> fetch_train base_deps ((spawn base_deps ())\<lparr>to_worker := [Cmd ''train'' [PInt 5000]]\<rparr>)
     = Return (PTuple [PInt 0, PInt 0]) (spawn base_deps ())
   \<and> infer_action base_deps ((spawn base_deps ())\<lparr>to_handle := [PInt 9]\<rparr>)
       (PInt 1) (PInt 2) (PStr ''greedy'') (PInt 0) True
     = Return (PInt 9)
        ((spawn base_deps ())\<lparr>to_worker := [Cmd ''act'' [PInt 1, PInt 2, PStr ''greedy'', PInt 0]]\<rparr>)"
proof -
  let ?s = "spawn base_deps () :: (unit, pyval list) system"
  let ?p = "?s\<lparr>to_handle := [PInt 9]\<rparr>"
  note inst = nonblocking_calls_do_not_read [of base_deps ?s "PInt 1" "PInt 2" "PStr ''greedy''"
      "PInt 0" "PInt 5000" _ _ _ _ _ PNone "()" "PInt 0" "PInt 0"]
  note inst' = nonblocking_calls_do_not_read [of base_deps ?p "PInt 1" "PInt 2" "PStr ''greedy''"
      "PInt 0"]
  have idle: "status ?s = Running \<and> to_worker ?s = [] \<and> to_handle ?s = []"
    by (simp add: spawn_def)
  have infer: "rl_infer_action base_deps (model ?s) (PInt 1) (PInt 2) (PStr ''greedy'') (PInt 0)
      = Inr (PNone, ())"
    by (simp add: base_deps_def BaseModel_infer_action_def)
  have trained: "rl_train base_deps (model ?s) (sample_buffer ?s) (PInt 5000)
      = Inr ((PInt 0, PInt 0), ())"
    by (simp add: base_deps_def BaseModel_train_def)
  from inst idle infer have
    "fetch_action base_deps (?s\<lparr>to_worker := to_worker ?s @ [Cmd ''act'' [PInt 1, PInt 2, PStr ''greedy'', PInt 0]]\<rparr>)
       = Return PNone (?s\<lparr>obs := Some (PInt 1), ids := Some (PInt 2), acts := Some PNone, model := ()\<rparr>)"
    by simp
  moreover from inst idle trained have
    "fetch_train base_deps (?s\<lparr>to_worker := to_worker ?s @ [Cmd ''train'' [PInt 5000]]\<rparr>)
       = Return (PTuple [PInt 0, PInt 0])
           (?s\<lparr>model := (), sample_buffer := EpisodesBuffer base_deps (sample_buffer_capacity base_deps)\<rparr>)"
    by simp
  moreover have "to_handle ?p = PInt 9 # []"
    by (simp add: spawn_def)
  with inst' have
    "infer_action base_deps ?p (PInt 1) (PInt 2) (PStr ''greedy'') (PInt 0) True
       = Return (PInt 9)
          (?p\<lparr>to_worker := to_worker ?p @ [Cmd ''act'' [PInt 1, PInt 2, PStr ''greedy'', PInt 0]],
               to_handle := []\<rparr>)"
    by blast
  ultimately show ?thesis
    by (simp add: spawn_def base_deps_def)
qed

text \<open>
  Claim C10, as stated, fails in its last part: a pending response is also consumed by a
  later blocking \<^verbatim>\<open>infer_action\<close>, which is none of \<^verbatim>\<open>fetch_action\<close>, \<^verbatim>\<open>fetch_train\<close> and
  \<^verbatim>\<open>check_done\<close>. The model here answers an \<^verbatim>\<open>'act'\<close> with the ids it was given. After
  \<^verbatim>\<open>infer_action(10, 1, block=False)\<close> the worker sends the answer \<^verbatim>\<open>1\<close>; the call
  \<^verbatim>\<open>infer_action(20, 2, block=True)\<close> that follows returns that \<^verbatim>\<open>1\<close>, read by line 138.
\<close>

theorem nonblocking_calls_do_not_read_counterexample:
  "infer_action (base_deps\<lparr>rl_infer_action := \<lambda>m ob i policy eps. Inr (i, m)\<rparr>)
       (spawn (base_deps\<lparr>rl_infer_action := \<lambda>m ob i policy eps. Inr (i, m)\<rparr>) ())
       (PInt 10) (PInt 1) (PStr ''greedy'') (PInt 0) False
     = Return PNone
        ((spawn base_deps ())\<lparr>to_worker := [Cmd ''act'' [PInt 10, PInt 1, PStr ''greedy'', PInt 0]]\<rparr>)
   \<and> worker_progress (base_deps\<lparr>rl_infer_action := \<lambda>m ob i policy eps. Inr (i, m)\<rparr>) 1
        ((spawn base_deps ())\<lparr>to_worker := [Cmd ''act'' [PInt 10, PInt 1, PStr ''greedy'', PInt 0]]\<rparr>)
     = (spawn base_deps ())\<lparr>obs := Some (PInt 10), ids := Some (PInt 1), acts := Some (PInt 1),
          to_handle := [PInt 1]\<rparr>
   \<and> infer_action (base_deps\<lparr>rl_infer_action := \<lambda>m ob i policy eps. Inr (i, m)\<rparr>)
        ((spawn base_deps ())\<lparr>obs := Some (PInt 10), ids := Some (PInt 1), acts := Some (PInt 1),
          to_handle := [PInt 1]\<rparr>)
        (PInt 20) (PInt 2) (PStr ''greedy'') (PInt 0) True
     = Return (PInt 1)
        ((spawn base_deps ())\<lparr>obs := Some (PInt 10), ids := Some (PInt 1), acts := Some (PInt 1),
          to_worker := [Cmd ''act'' [PInt 20, PInt 2, PStr ''greedy'', PInt 0]]\<rparr>)"
  by (simp add: infer_action_def conn_send_def conn_recv_pending worker_step_def worker_send_def
      spawn_def base_deps_def)

section \<open>What a Sample command carries\<close>

text \<open>
  Claim C4, as amended. \<^verbatim>\<open>sample_step\<close> sends \<^verbatim>\<open>["sample", rewards, alives]\<close>: the payload
  is the two arguments of the call and nothing else. The proxy keeps no ids, observation or
  actions; with \<^verbatim>\<open>block\<close> the call then goes through \<^verbatim>\<open>check_done\<close>.
\<close>

theorem sample_step_payload:
  "sample_step D s rewards alives False =
     Return PNone (s\<lparr>to_worker := to_worker s @ [Cmd ''sample'' [rewards, alives]]\<rparr>)
   \<and> sample_step D s rewards alives True =
     check_done D (s\<lparr>to_worker := to_worker s @ [Cmd ''sample'' [rewards, alives]]\<rparr>)"
  by (simp add: sample_step_def conn_send_def)

text \<open>
  Claim C4, as stated, fails: after \<^verbatim>\<open>infer_action(obs=1, ids=2)\<close> on a \<^verbatim>\<open>BaseModel\<close>
  (actions \<^verbatim>\<open>None\<close>), \<^verbatim>\<open>sample_step(3, 4, block=False)\<close> sends \<^verbatim>\<open>["sample", 3, 4]\<close>, which
  holds none of the ids, the observation and the actions of that call.
\<close>

theorem sample_step_payload_counterexample:
  "infer_action base_deps (spawn base_deps ()) (PInt 1) (PInt 2) (PStr ''greedy'') (PInt 0) True
     = Return PNone
        ((spawn base_deps ())\<lparr>obs := Some (PInt 1), ids := Some (PInt 2), acts := Some PNone\<rparr>)
   \<and> sample_step base_deps
        ((spawn base_deps ())\<lparr>obs := Some (PInt 1), ids := Some (PInt 2), acts := Some PNone\<rparr>)
        (PInt 3) (PInt 4) False
     = Return PNone
        ((spawn base_deps ())\<lparr>obs := Some (PInt 1), ids := Some (PInt 2), acts := Some PNone,
            to_worker := [Cmd ''sample'' [PInt 3, PInt 4]]\<rparr>)
   \<and> PInt 2 \<notin> set [PInt 3, PInt 4]
   \<and> PInt 1 \<notin> set [PInt 3, PInt 4]
   \<and> PNone \<notin> set [PInt 3, PInt 4]"
proof -
  let ?s = "spawn base_deps () :: (unit, pyval list) system"
  let ?act = "Cmd ''act'' [PInt 1, PInt 2, PStr ''greedy'', PInt 0]"
  have "conn_recv base_deps (conn_send ?s ?act) =
      Return PNone ((loop_body base_deps ((conn_send ?s ?act)\<lparr>to_worker := []\<rparr>) ?act)\<lparr>to_handle := []\<rparr>)"
    by (intro conn_recv_answer)
       (simp_all add: conn_send_def worker_send_def spawn_def base_deps_def BaseModel_infer_action_def)
  then have "infer_action base_deps ?s (PInt 1) (PInt 2) (PStr ''greedy'') (PInt 0) True
     = Return PNone (?s\<lparr>obs := Some (PInt 1), ids := Some (PInt 2), acts := Some PNone\<rparr>)"
    by (simp add: infer_action_def conn_send_def worker_send_def spawn_def base_deps_def
        BaseModel_infer_action_def)
  then show ?thesis
    by (simp add: sample_step_def conn_send_def spawn_def)
qed

section \<open>Sample and the most recent Infer\<close>

text \<open>
  Claim C9. While no \<^verbatim>\<open>'act'\<close> command has been dispatched, \<^verbatim>\<open>ids\<close>, \<^verbatim>\<open>obs\<close> and \<^verbatim>\<open>acts\<close>
  are unbound. When the worker, still running after commands \<open>pre\<close> none of which is
  \<^verbatim>\<open>'act'\<close>, dispatches a \<^verbatim>\<open>'sample'\<close> command, line 252 raises \<^verbatim>\<open>UnboundLocalError\<close>: the
  worker dies there, and no \<^verbatim>\<open>'done'\<close> is sent for that command nor anything after it.
\<close>

theorem sample_before_infer_crashes:
  assumes unbound: "ids s = None" "obs s = None" "acts s = None"
    and queue: "to_worker s = pre @ Cmd ''sample'' (rewards # alives # extra) # rest"
    and no_act: "\<forall>c \<in> set pre. tag_of c \<noteq> ''act''"
    and reached: "status (worker_progress D (length pre) s) = Running"
  shows "worker_progress D (Suc (length pre)) s =
           (worker_progress D (length pre) s)\<lparr>to_worker := rest, status := Crashed UnboundLocalError\<rparr>
         \<and> worker_run D s =
           (worker_progress D (length pre) s)\<lparr>to_worker := rest, status := Crashed UnboundLocalError\<rparr>
         \<and> to_handle (worker_run D s) = to_handle (worker_progress D (length pre) s)"
proof -
  let ?s1 = "worker_progress D (length pre) s"
  let ?s2 = "?s1\<lparr>to_worker := rest, status := Crashed UnboundLocalError\<rparr>"
  from queue no_act have "\<forall>c \<in> set (take (length pre) (to_worker s)). tag_of c \<noteq> ''act''"
    by simp
  from locals_worker_progress [OF this, of D] unbound
  have none: "ids ?s1 = None" "obs ?s1 = None" "acts ?s1 = None"
    by simp_all
  from queue_worker_progress [OF reached] queue
  have q1: "to_worker ?s1 = Cmd ''sample'' (rewards # alives # extra) # rest"
    by simp
  from reached q1 none have step: "worker_step D ?s1 = Some ?s2"
    by (simp add: worker_step_def crash_def)
  then have a: "worker_progress D (Suc (length pre)) s = ?s2"
    by (simp only: worker_progress_Suc option.case)
  have "worker_step D ?s2 = None"
    by (simp add: worker_step_def)
  with step have "worker_run D ?s1 = ?s2"
    by (simp add: worker_run_step worker_run_stop)
  then have b: "worker_run D s = ?s2"
    by (simp add: worker_run_progress)
  from a b show ?thesis by simp
qed

theorem sample_before_infer_crashes_witness:
  "worker_run base_deps
     ((spawn base_deps ())\<lparr>to_worker := [Cmd ''train'' [PInt 5000], Cmd ''sample'' [PInt 3, PInt 4]]\<rparr>)
     = (spawn base_deps ())\<lparr>to_handle := [PTuple [PInt 0, PInt 0]], status := Crashed UnboundLocalError\<rparr>"
proof -
  let ?s = "(spawn base_deps ())\<lparr>to_worker := [Cmd ''train'' [PInt 5000], Cmd ''sample'' [PInt 3, PInt 4]]\<rparr>"
  have one: "worker_progress base_deps (length [Cmd ''train'' [PInt 5000]]) ?s =
      (spawn base_deps ())\<lparr>to_worker := [Cmd ''sample'' [PInt 3, PInt 4]],
         to_handle := [PTuple [PInt 0, PInt 0]]\<rparr>"
    by (simp add: worker_step_def spawn_def base_deps_def BaseModel_train_def worker_send_def)
  have "worker_run base_deps ?s =
      (worker_progress base_deps (length [Cmd ''train'' [PInt 5000]]) ?s)
        \<lparr>to_worker := [], status := Crashed UnboundLocalError\<rparr>"
    using sample_before_infer_crashes [of ?s "[Cmd ''train'' [PInt 5000]]" "PInt 3" "PInt 4" "[]" "[]" base_deps]
    by (simp only: one) (simp add: spawn_def)
  then show ?thesis
    by (simp only: one) (simp add: spawn_def)
qed

text \<open>
  Claim C3. Let the worker dispatch an \<^verbatim>\<open>'act'\<close> command with observation \<open>ob\<close> and ids \<open>i\<close>,
  to which the model answers the actions \<open>a\<close>; then commands \<open>mid\<close>, none of them \<^verbatim>\<open>'act'\<close>;
  then, still running, a \<^verbatim>\<open>'sample'\<close> command with \<open>rewards\<close> and \<open>alives\<close>. At that point
  \<^verbatim>\<open>ids\<close>, \<^verbatim>\<open>obs\<close>, \<^verbatim>\<open>acts\<close> still hold \<open>i\<close>, \<open>ob\<close>, \<open>a\<close>, and the dispatch replaces the buffer by
  what \<^verbatim>\<open>record_step(ids, obs, acts, rewards, alives)\<close> makes of it, then sends \<^verbatim>\<open>'done'\<close>.
\<close>

theorem sample_records_last_infer:
  assumes running: "status s = Running"
    and queue: "to_worker s =
        Cmd ''act'' (ob # i # policy # eps # extra)
          # mid @ Cmd ''sample'' (rewards # alives # extra') # rest"
    and no_act: "\<forall>c \<in> set mid. tag_of c \<noteq> ''act''"
    and inferred: "rl_infer_action D (model s) ob i policy eps = Inr (a, m')"
    and reached: "status (worker_progress D (Suc (length mid)) s) = Running"
    and recorded: "record_step D (sample_buffer (worker_progress D (Suc (length mid)) s))
        i ob a rewards alives = Inr b"
  shows "ids (worker_progress D (Suc (length mid)) s) = Some i
         \<and> obs (worker_progress D (Suc (length mid)) s) = Some ob
         \<and> acts (worker_progress D (Suc (length mid)) s) = Some a
         \<and> worker_progress D (Suc (Suc (length mid))) s =
             (worker_progress D (Suc (length mid)) s)
               \<lparr>to_worker := rest,
                 sample_buffer := b,
                 to_handle := to_handle (worker_progress D (Suc (length mid)) s) @ [PStr ''done'']\<rparr>"
proof -
  let ?act = "Cmd ''act'' (ob # i # policy # eps # extra)"
  let ?sample = "Cmd ''sample'' (rewards # alives # extra')"
  let ?s1 = "loop_body D (s\<lparr>to_worker := mid @ ?sample # rest\<rparr>) ?act"
  let ?s2 = "worker_progress D (Suc (length mid)) s"
  from running queue have first: "worker_step D s = Some ?s1"
    by (simp add: worker_step_def)
  then have s2: "?s2 = worker_progress D (length mid) ?s1"
    by simp
  from inferred have bound1: "ids ?s1 = Some i" "obs ?s1 = Some ob" "acts ?s1 = Some a"
    by (simp_all add: worker_send_def)
  have q1: "to_worker ?s1 = mid @ ?sample # rest"
    by (simp del: loop_body.simps)
  with no_act have "\<forall>c \<in> set (take (length mid) (to_worker ?s1)). tag_of c \<noteq> ''act''"
    by simp
  from locals_worker_progress [OF this, of D] bound1 s2
  have bound2: "ids ?s2 = Some i" "obs ?s2 = Some ob" "acts ?s2 = Some a"
    by simp_all
  from reached s2 have "status (worker_progress D (length mid) ?s1) = Running"
    by simp
  from queue_worker_progress [OF this] q1 s2 have q2: "to_worker ?s2 = ?sample # rest"
    by simp
  from reached q2 bound2 recorded
  have "worker_step D ?s2 =
      Some (?s2\<lparr>to_worker := rest, sample_buffer := b, to_handle := to_handle ?s2 @ [PStr ''done'']\<rparr>)"
    by (simp add: worker_step_def worker_send_def)
  then have "worker_progress D (Suc (Suc (length mid))) s =
      ?s2\<lparr>to_worker := rest, sample_buffer := b, to_handle := to_handle ?s2 @ [PStr ''done'']\<rparr>"
    by (simp only: worker_progress_Suc [of D "Suc (length mid)"] option.case)
  with bound2 show ?thesis by simp
qed

theorem sample_records_last_infer_witness:
  "worker_progress base_deps 3
     ((spawn base_deps ())\<lparr>to_worker :=
        [Cmd ''act'' [PInt 1, PInt 2, PStr ''greedy'', PInt 0],
         Cmd ''save'' [PStr ''dir'', PInt 7],
         Cmd ''sample'' [PInt 3, PInt 4]]\<rparr>)
   = (spawn base_deps ())
       \<lparr>obs := Some (PInt 1), ids := Some (PInt 2), acts := Some PNone,
        sample_buffer := [PTuple [PInt 2, PInt 1, PNone, PInt 3, PInt 4]],
        to_handle := [PNone, PStr ''done'', PStr ''done'']\<rparr>"
proof -
  let ?s = "(spawn base_deps ())\<lparr>to_worker :=
        [Cmd ''act'' [PInt 1, PInt 2, PStr ''greedy'', PInt 0],
         Cmd ''save'' [PStr ''dir'', PInt 7],
         Cmd ''sample'' [PInt 3, PInt 4]]\<rparr>"
  let ?s2 = "(spawn base_deps ())
       \<lparr>obs := Some (PInt 1), ids := Some (PInt 2), acts := Some PNone,
        to_worker := [Cmd ''sample'' [PInt 3, PInt 4]],
        to_handle := [PNone, PStr ''done'']\<rparr>"
  have two: "worker_progress base_deps (Suc (length [Cmd ''save'' [PStr ''dir'', PInt 7]])) ?s = ?s2"
    by (simp add: worker_step_def spawn_def base_deps_def BaseModel_infer_action_def
        BaseModel_save_def worker_send_def)
  have "worker_progress base_deps (Suc (Suc (length [Cmd ''save'' [PStr ''dir'', PInt 7]]))) ?s
      = (worker_progress base_deps (Suc (length [Cmd ''save'' [PStr ''dir'', PInt 7]])) ?s)
          \<lparr>to_worker := [],
           sample_buffer := [PTuple [PInt 2, PInt 1, PNone, PInt 3, PInt 4]],
           to_handle := to_handle (worker_progress base_deps
              (Suc (length [Cmd ''save'' [PStr ''dir'', PInt 7]])) ?s) @ [PStr ''done'']\<rparr>"
    using sample_records_last_infer [of ?s "PInt 1" "PInt 2" "PStr ''greedy''" "PInt 0" "[]"
        "[Cmd ''save'' [PStr ''dir'', PInt 7]]" "PInt 3" "PInt 4" "[]" "[]" base_deps PNone "()"
        "[PTuple [PInt 2, PInt 1, PNone, PInt 3, PInt 4]]"]
    by (simp only: two)
       (simp add: spawn_def base_deps_def BaseModel_infer_action_def journal_step_def)
  then show ?thesis
    by (simp only: two) (simp add: spawn_def eval_nat_numeral)
qed

section \<open>Train\<close>

text \<open>
  Claim C2. A running worker that receives \<^verbatim>\<open>['train', print_every]\<close> calls the model's
  \<^verbatim>\<open>train\<close> on the current buffer and \<open>print_every\<close>. When that returns \<open>(total_loss, val)\<close>,
  the worker replaces the buffer by \<^verbatim>\<open>EpisodesBuffer(sample_buffer_capacity)\<close>, the buffer a
  worker starts with, and sends the pair. The old buffer matters to what follows only
  through what \<^verbatim>\<open>train\<close> returned, and after one more \<^verbatim>\<open>'act'\<close> and \<^verbatim>\<open>'sample'\<close> the buffer
  awaiting the next \<^verbatim>\<open>'train'\<close> is a fresh one with that single step recorded. When
  \<^verbatim>\<open>train\<close> raises, the worker dies before it replaces the buffer or sends anything.
\<close>

theorem train_resets_buffer:
  assumes running: "status s = Running"
    and queue: "to_worker s = Cmd ''train'' (print_every # extra) # rest"
  shows "(\<forall>total_loss val m'.
            rl_train D (model s) (sample_buffer s) print_every = Inr ((total_loss, val), m') \<longrightarrow>
              worker_step D s =
                Some (s\<lparr>to_worker := rest,
                        model := m',
                        sample_buffer := EpisodesBuffer D (sample_buffer_capacity D),
                        to_handle := to_handle s @ [PTuple [total_loss, val]]\<rparr>)
              \<and> (\<forall>old. rl_train D (model s) old print_every = Inr ((total_loss, val), m') \<longrightarrow>
                    worker_step D (s\<lparr>sample_buffer := old\<rparr>) = worker_step D s)
              \<and> (\<forall>ob i policy eps extra1 rewards alives extra2 rest' a m'' b.
                    rest = Cmd ''act'' (ob # i # policy # eps # extra1)
                             # Cmd ''sample'' (rewards # alives # extra2) # rest'
                    \<and> rl_infer_action D m' ob i policy eps = Inr (a, m'')
                    \<and> record_step D (EpisodesBuffer D (sample_buffer_capacity D))
                          i ob a rewards alives = Inr b
                    \<longrightarrow> sample_buffer (worker_progress D 3 s) = b
                        \<and> status (worker_progress D 3 s) = Running
                        \<and> to_worker (worker_progress D 3 s) = rest'))
         \<and> (\<forall>e. rl_train D (model s) (sample_buffer s) print_every = Inl e \<longrightarrow>
               worker_step D s = Some (s\<lparr>to_worker := rest, status := Crashed e\<rparr>))
         \<and> EpisodesBuffer D (sample_buffer_capacity D) = sample_buffer (spawn D m0)"
proof -
  have ok: "worker_step D s =
                Some (s\<lparr>to_worker := rest,
                        model := m',
                        sample_buffer := EpisodesBuffer D (sample_buffer_capacity D),
                        to_handle := to_handle s @ [PTuple [total_loss, val]]\<rparr>)"
    if "rl_train D (model s) (sample_buffer s) print_every = Inr ((total_loss, val), m')"
    for total_loss val m'
    using that assms by (simp add: worker_step_def worker_send_def)
  have indep: "worker_step D (s\<lparr>sample_buffer := old\<rparr>) = worker_step D s"
    if "rl_train D (model s) (sample_buffer s) print_every = Inr ((total_loss, val), m')"
      and "rl_train D (model s) old print_every = Inr ((total_loss, val), m')"
    for total_loss val m' old
    using that assms by (simp add: worker_step_def worker_send_def)
  have next_train: "sample_buffer (worker_progress D 3 s) = b
                   \<and> status (worker_progress D 3 s) = Running
                   \<and> to_worker (worker_progress D 3 s) = rest'"
    if trained: "rl_train D (model s) (sample_buffer s) print_every = Inr ((total_loss, val), m')"
      and then_sample: "rest = Cmd ''act'' (ob # i # policy # eps # extra1)
                        # Cmd ''sample'' (rewards # alives # extra2) # rest'"
        "rl_infer_action D m' ob i policy eps = Inr (a, m'')"
        "record_step D (EpisodesBuffer D (sample_buffer_capacity D)) i ob a rewards alives = Inr b"
    for total_loss val m' ob i policy eps extra1 rewards alives extra2 rest' a m'' b
  proof -
    let ?s1 = "s\<lparr>to_worker := rest, model := m',
                   sample_buffer := EpisodesBuffer D (sample_buffer_capacity D),
                   to_handle := to_handle s @ [PTuple [total_loss, val]]\<rparr>"
    have "worker_progress D 3 s = worker_progress D 2 ?s1"
      using ok [OF trained] by (simp add: eval_nat_numeral)
    also have "\<dots> = ?s1\<lparr>to_worker := rest', obs := Some ob, ids := Some i, acts := Some a,
        model := m'', sample_buffer := b,
        to_handle := to_handle s @ [PTuple [total_loss, val], a, PStr ''done'']\<rparr>"
      using then_sample running by (simp add: eval_nat_numeral worker_step_def worker_send_def)
    finally show ?thesis using running by simp
  qed
  have raised: "worker_step D s = Some (s\<lparr>to_worker := rest, status := Crashed e\<rparr>)"
    if "rl_train D (model s) (sample_buffer s) print_every = Inl e" for e
    using that assms by (simp add: worker_step_def crash_def)
  show ?thesis
  proof (intro conjI allI impI)
    fix total_loss val m'
    assume t: "rl_train D (model s) (sample_buffer s) print_every = Inr ((total_loss, val), m')"
    from t show "worker_step D s =
                Some (s\<lparr>to_worker := rest,
                        model := m',
                        sample_buffer := EpisodesBuffer D (sample_buffer_capacity D),
                        to_handle := to_handle s @ [PTuple [total_loss, val]]\<rparr>)"
      by (rule ok)
    { fix old
      assume "rl_train D (model s) old print_every = Inr ((total_loss, val), m')"
      with t show "worker_step D (s\<lparr>sample_buffer := old\<rparr>) = worker_step D s"
        by (rule indep) }
    { fix ob i policy eps extra1 rewards alives extra2 rest' a m'' b
      assume "rest = Cmd ''act'' (ob # i # policy # eps # extra1)
                             # Cmd ''sample'' (rewards # alives # extra2) # rest'
                    \<and> rl_infer_action D m' ob i policy eps = Inr (a, m'')
                    \<and> record_step D (EpisodesBuffer D (sample_buffer_capacity D))
                          i ob a rewards alives = Inr b"
      with next_train [OF t] show "sample_buffer (worker_progress D 3 s) = b"
        "status (worker_progress D 3 s) = Running"
        "to_worker (worker_progress D 3 s) = rest'"
        by blast+ }
  next
    fix e
    assume "rl_train D (model s) (sample_buffer s) print_every = Inl e"
    then show "worker_step D s = Some (s\<lparr>to_worker := rest, status := Crashed e\<rparr>)"
      by (rule raised)
  next
    show "EpisodesBuffer D (sample_buffer_capacity D) = sample_buffer (spawn D m0)"
      by (simp add: spawn_def)
  qed
qed

theorem train_resets_buffer_witness:
  "worker_step base_deps
     ((spawn base_deps ())\<lparr>sample_buffer := [PTuple [PInt 9, PInt 8, PInt 7, PInt 6, PInt 5]],
        to_worker := [Cmd ''train'' [PInt 5000],
                      Cmd ''act'' [PInt 1, PInt 2, PStr ''greedy'', PInt 0],
                      Cmd ''sample'' [PInt 3, PInt 4],
                      Cmd ''train'' [PInt 5000]]\<rparr>)
   = Some ((spawn base_deps ())\<lparr>
        to_worker := [Cmd ''act'' [PInt 1, PInt 2, PStr ''greedy'', PInt 0],
                      Cmd ''sample'' [PInt 3, PInt 4],
                      Cmd ''train'' [PInt 5000]],
        to_handle := [PTuple [PInt 0, PInt 0]]\<rparr>)
   \<and> sample_buffer (worker_progress base_deps 3
     ((spawn base_deps ())\<lparr>sample_buffer := [PTuple [PInt 9, PInt 8, PInt 7, PInt 6, PInt 5]],
        to_worker := [Cmd ''train'' [PInt 5000],
                      Cmd ''act'' [PInt 1, PInt 2, PStr ''greedy'', PInt 0],
                      Cmd ''sample'' [PInt 3, PInt 4],
                      Cmd ''train'' [PInt 5000]]\<rparr>))
     = [PTuple [PInt 2, PInt 1, PNone, PInt 3, PInt 4]]
   \<and> to_worker (worker_progress base_deps 3
     ((spawn base_deps ())\<lparr>sample_buffer := [PTuple [PInt 9, PInt 8, PInt 7, PInt 6, PInt 5]],
        to_worker := [Cmd ''train'' [PInt 5000],
                      Cmd ''act'' [PInt 1, PInt 2, PStr ''greedy'', PInt 0],
                      Cmd ''sample'' [PInt 3, PInt 4],
                      Cmd ''train'' [PInt 5000]]\<rparr>))
     = [Cmd ''train'' [PInt 5000]]
   \<and> worker_step (base_deps\<lparr>rl_train := \<lambda>m buf print_every. Inl (Raised ''ValueError'')\<rparr>)
     ((spawn base_deps ())\<lparr>to_worker := [Cmd ''train'' [PInt 5000]]\<rparr>)
     = Some ((spawn base_deps ())\<lparr>status := Crashed (Raised ''ValueError'')\<rparr>)"
proof -
  let ?act = "Cmd ''act'' [PInt 1, PInt 2, PStr ''greedy'', PInt 0]"
  let ?rest = "[?act, Cmd ''sample'' [PInt 3, PInt 4], Cmd ''train'' [PInt 5000]]"
  let ?s = "(spawn base_deps ())\<lparr>sample_buffer := [PTuple [PInt 9, PInt 8, PInt 7, PInt 6, PInt 5]],
        to_worker := Cmd ''train'' [PInt 5000] # ?rest\<rparr>"
  let ?D' = "base_deps\<lparr>rl_train := \<lambda>m buf print_every. Inl (Raised ''ValueError'')\<rparr>"
  let ?t = "(spawn base_deps ())\<lparr>to_worker := [Cmd ''train'' [PInt 5000]]\<rparr>"
  note ok = train_resets_buffer [of ?s "PInt 5000" "[]" ?rest base_deps]
  note bad = train_resets_buffer [of ?t "PInt 5000" "[]" "[]" ?D']
  have pre: "status ?s = Running" "to_worker ?s = Cmd ''train'' [PInt 5000] # ?rest"
    "status ?t = Running" "to_worker ?t = [Cmd ''train'' [PInt 5000]]"
    by (simp_all add: spawn_def)
  have trained: "rl_train base_deps (model ?s) (sample_buffer ?s) (PInt 5000) = Inr ((PInt 0, PInt 0), ())"
    by (simp add: base_deps_def BaseModel_train_def)
  have inferred: "rl_infer_action base_deps () (PInt 1) (PInt 2) (PStr ''greedy'') (PInt 0) = Inr (PNone, ())"
    by (simp add: base_deps_def BaseModel_infer_action_def)
  have recorded: "record_step base_deps (EpisodesBuffer base_deps (sample_buffer_capacity base_deps))
      (PInt 2) (PInt 1) PNone (PInt 3) (PInt 4) = Inr [PTuple [PInt 2, PInt 1, PNone, PInt 3, PInt 4]]"
    by (simp add: base_deps_def journal_step_def)
  have raises: "rl_train ?D' (model ?t) (sample_buffer ?t) (PInt 5000) = Inl (Raised ''ValueError'')"
    by simp
  from ok pre trained have
    "worker_step base_deps ?s =
       Some (?s\<lparr>to_worker := ?rest, model := (),
                sample_buffer := EpisodesBuffer base_deps (sample_buffer_capacity base_deps),
                to_handle := to_handle ?s @ [PTuple [PInt 0, PInt 0]]\<rparr>)"
    by blast
  moreover from ok pre trained inferred recorded have
    "sample_buffer (worker_progress base_deps 3 ?s) = [PTuple [PInt 2, PInt 1, PNone, PInt 3, PInt 4]]
     \<and> to_worker (worker_progress base_deps 3 ?s) = [Cmd ''train'' [PInt 5000]]"
    by blast
  moreover from bad pre raises have
    "worker_step ?D' ?t = Some (?t\<lparr>to_worker := [], status := Crashed (Raised ''ValueError'')\<rparr>)"
    by blast
  ultimately show ?thesis
    by (simp add: spawn_def base_deps_def)
qed

section \<open>One response per command, in order\<close>

lemma answers_to_worker [simp]: "answers D (s\<lparr>to_worker := q\<rparr>) c r = answers D s c r"
  by (cases c) (simp split: list.split sum.split prod.split)

lemma never_raises_infer:
  "never_raises D \<Longrightarrow> \<exists>a m'. rl_infer_action D m ob i policy eps = Inr (a, m')"
  by (simp add: never_raises_def)

lemma never_raises_train:
  "never_raises D \<Longrightarrow> \<exists>total_loss val m'. rl_train D m buf print_every = Inr ((total_loss, val), m')"
  by (simp add: never_raises_def)

lemma never_raises_save: "never_raises D \<Longrightarrow> \<exists>m'. rl_save D m savedir n_iter = Inr m'"
  by (simp add: never_raises_def)

lemma never_raises_load: "never_raises D \<Longrightarrow> \<exists>m'. rl_load D m savedir n_iter name = Inr m'"
  by (simp add: never_raises_def)

lemma never_raises_record:
  "never_raises D \<Longrightarrow> \<exists>buf'. record_step D buf i ob a rewards alives = Inr buf'"
  by (simp add: never_raises_def)

lemma bound_to_worker [simp]: "bound (s\<lparr>to_worker := q\<rparr>) = bound s"
  by (simp add: bound_def)

lemma four_args: "4 \<le> length args \<Longrightarrow> \<exists>a b c d rest. args = a # b # c # d # rest"
  by (auto simp: eval_nat_numeral Suc_le_length_iff)

lemma three_args: "3 \<le> length args \<Longrightarrow> \<exists>a b c rest. args = a # b # c # rest"
  by (auto simp: eval_nat_numeral Suc_le_length_iff)

lemma two_args: "2 \<le> length args \<Longrightarrow> \<exists>a b rest. args = a # b # rest"
  by (auto simp: eval_nat_numeral Suc_le_length_iff)

lemma one_arg: "1 \<le> length args \<Longrightarrow> \<exists>a rest. args = a # rest"
  by (auto simp: Suc_le_length_iff)

lemma recognized_cases [consumes 1, case_names act train sample save load]:
  assumes known: "recognized c"
  obtains
    (act) ob i policy eps rest where "c = Cmd ''act'' (ob # i # policy # eps # rest)"
  | (train) print_every rest where "c = Cmd ''train'' (print_every # rest)"
  | (sample) rewards alives rest where "c = Cmd ''sample'' (rewards # alives # rest)"
  | (save) savedir n_iter rest where "c = Cmd ''save'' (savedir # n_iter # rest)"
  | (load) savedir n_iter name rest where "c = Cmd ''load'' (savedir # n_iter # name # rest)"
proof -
  obtain tag args where c: "c = Cmd tag args" by (cases c)
  with known have
    "tag = ''act'' \<and> 4 \<le> length args
      \<or> tag = ''train'' \<and> 1 \<le> length args
      \<or> tag = ''sample'' \<and> 2 \<le> length args
      \<or> tag = ''save'' \<and> 2 \<le> length args
      \<or> tag = ''load'' \<and> 3 \<le> length args"
    by (simp only: recognized.simps)
  then show thesis
  proof (elim disjE conjE)
    assume "tag = ''act''" "4 \<le> length args"
    with c four_args [of args] act show thesis by blast
  next
    assume "tag = ''train''" "1 \<le> length args"
    with c one_arg [of args] train show thesis by blast
  next
    assume "tag = ''sample''" "2 \<le> length args"
    with c two_args [of args] sample show thesis by blast
  next
    assume "tag = ''save''" "2 \<le> length args"
    with c two_args [of args] save show thesis by blast
  next
    assume "tag = ''load''" "3 \<le> length args"
    with c three_args [of args] load show thesis by blast
  qed
qed

text \<open>With collaborators that never raise, a recognized command does not end the worker,
  provided a \<^verbatim>\<open>'sample'\<close> finds \<^verbatim>\<open>ids\<close>, \<^verbatim>\<open>obs\<close> and \<^verbatim>\<open>acts\<close> assigned.\<close>

lemma loop_body_never_dies:
  assumes total: "never_raises D"
    and known: "recognized c"
    and guarded: "tag_of c = ''sample'' \<Longrightarrow> bound s"
  shows "status (loop_body D s c) = status s
         \<and> (bound (loop_body D s c) \<longleftrightarrow> bound s \<or> tag_of c = ''act'')"
  using known
proof (cases rule: recognized_cases)
  case (act ob i policy eps rest)
  from never_raises_infer [OF total] obtain a m'
    where "rl_infer_action D (model s) ob i policy eps = Inr (a, m')"
    by blast
  with act show ?thesis
    by (simp add: worker_send_def bound_def)
next
  case (train print_every rest)
  from never_raises_train [OF total] obtain total_loss val m'
    where "rl_train D (model s) (sample_buffer s) print_every = Inr ((total_loss, val), m')"
    by blast
  with train show ?thesis
    by (simp add: worker_send_def bound_def)
next
  case (sample rewards alives rest)
  with guarded obtain i ob a
    where locals: "ids s = Some i" "obs s = Some ob" "acts s = Some a"
    by (auto simp: bound_def)
  from never_raises_record [OF total] obtain buf'
    where "record_step D (sample_buffer s) i ob a rewards alives = Inr buf'"
    by blast
  with sample locals show ?thesis
    by (simp add: worker_send_def bound_def)
next
  case (save savedir n_iter rest)
  from never_raises_save [OF total] obtain m' where "rl_save D (model s) savedir n_iter = Inr m'"
    by blast
  with save show ?thesis
    by (simp add: worker_send_def bound_def)
next
  case (load savedir n_iter name rest)
  from never_raises_load [OF total] obtain m'
    where "rl_load D (model s) savedir n_iter name = Inr m'"
    by blast
  with load show ?thesis
    by (simp add: worker_send_def bound_def)
qed

text \<open>A recognized command that the worker survives has been answered by one response.\<close>

lemma loop_body_survives:
  assumes known: "recognized c"
    and running: "status s = Running"
    and survived: "status (loop_body D s c) = Running"
  shows "\<exists>r. to_handle (loop_body D s c) = to_handle s @ [r] \<and> answers D s c r"
  using known
proof (cases rule: recognized_cases)
  case (act ob i policy eps rest)
  show ?thesis
  proof (cases "rl_infer_action D (model s) ob i policy eps")
    case (Inl e)
    with act survived show ?thesis by (simp add: crash_def)
  next
    case (Inr p)
    with act show ?thesis by (cases p) (simp add: worker_send_def)
  qed
next
  case (train print_every rest)
  show ?thesis
  proof (cases "rl_train D (model s) (sample_buffer s) print_every")
    case (Inl e)
    with train survived show ?thesis by (simp add: crash_def)
  next
    case (Inr p)
    with train show ?thesis
      by (cases p; cases "fst p") (simp add: worker_send_def)
  qed
next
  case (sample rewards alives rest)
  show ?thesis
  proof (cases "ids s = None \<or> obs s = None \<or> acts s = None")
    case True
    with sample survived show ?thesis
      by (auto simp: crash_def split: option.splits)
  next
    case False
    then obtain i ob a where locals: "ids s = Some i" "obs s = Some ob" "acts s = Some a"
      by auto
    show ?thesis
    proof (cases "record_step D (sample_buffer s) i ob a rewards alives")
      case (Inl e)
      with sample locals survived show ?thesis by (simp add: crash_def)
    next
      case (Inr buf')
      with sample locals show ?thesis by (simp add: worker_send_def)
    qed
  qed
next
  case (save savedir n_iter rest)
  show ?thesis
  proof (cases "rl_save D (model s) savedir n_iter")
    case (Inl e)
    with save survived show ?thesis by (simp add: crash_def)
  next
    case (Inr m')
    with save show ?thesis by (simp add: worker_send_def)
  qed
next
  case (load savedir n_iter name rest)
  show ?thesis
  proof (cases "rl_load D (model s) savedir n_iter name")
    case (Inl e)
    with load survived show ?thesis by (simp add: crash_def)
  next
    case (Inr m')
    with load show ?thesis by (simp add: worker_send_def)
  qed
qed

lemma worker_run_dead: "status s \<noteq> Running \<Longrightarrow> worker_run D s = s"
  by (simp add: worker_run_stop worker_step_None)

lemma worker_run_never_dies:
  assumes total: "never_raises D"
  shows "status s = Running \<Longrightarrow> to_worker s = cmds \<Longrightarrow> list_all recognized cmds \<Longrightarrow>
     sample_after_infer (bound s) cmds \<Longrightarrow> status (worker_run D s) = Running"
proof (induction cmds arbitrary: s)
  case Nil
  then have "worker_run D s = s" by (simp add: worker_run_stop worker_step_None)
  with Nil show ?case by simp
next
  case (Cons c cs)
  let ?s1 = "loop_body D (s\<lparr>to_worker := cs\<rparr>) c"
  from Cons.prems have step: "worker_step D s = Some ?s1"
    by (simp add: worker_step_def)
  from Cons.prems have known: "recognized c" and known': "list_all recognized cs"
    by simp_all
  from Cons.prems have guarded: "tag_of c = ''sample'' \<Longrightarrow> bound (s\<lparr>to_worker := cs\<rparr>)"
    by (simp split: if_splits)
  from loop_body_never_dies [OF total known guarded]
  have s1: "status ?s1 = status s" "bound ?s1 \<longleftrightarrow> bound s \<or> tag_of c = ''act''"
    by simp_all
  from Cons.prems s1(2) have "sample_after_infer (bound ?s1) cs"
    by (auto split: if_splits)
  moreover have "to_worker ?s1 = cs" by (simp del: loop_body.simps)
  ultimately have "status (worker_run D ?s1) = Running"
    using Cons.IH [of ?s1] Cons.prems(1) s1(1) known' by simp
  with worker_run_step [OF step] show ?case by simp
qed

lemma worker_run_survives:
  "status s = Running \<Longrightarrow> to_worker s = cmds \<Longrightarrow> list_all recognized cmds \<Longrightarrow>
     status (worker_run D s) = Running \<Longrightarrow>
     \<exists>rs. length rs = length cmds
        \<and> to_worker (worker_run D s) = []
        \<and> to_handle (worker_run D s) = to_handle s @ rs
        \<and> (\<forall>i\<le>length cmds. to_handle (worker_progress D i s) = to_handle s @ take i rs)
        \<and> (\<forall>i<length cmds. answers D (worker_progress D i s) (cmds ! i) (rs ! i))"
proof (induction cmds arbitrary: s)
  case Nil
  then have "worker_run D s = s" by (simp add: worker_run_stop worker_step_None)
  with Nil show ?case by simp
next
  case (Cons c cs)
  let ?s1 = "loop_body D (s\<lparr>to_worker := cs\<rparr>) c"
  from Cons.prems have step: "worker_step D s = Some ?s1"
    by (simp add: worker_step_def)
  then have run: "worker_run D s = worker_run D ?s1" by (rule worker_run_step)
  from Cons.prems have known: "recognized c" and known': "list_all recognized cs"
    by simp_all
  have alive: "status ?s1 = Running"
  proof (rule ccontr)
    assume "status ?s1 \<noteq> Running"
    then have "worker_run D ?s1 = ?s1" by (rule worker_run_dead)
    with run Cons.prems(4) \<open>status ?s1 \<noteq> Running\<close> show False by simp
  qed
  from Cons.prems(1) have "status (s\<lparr>to_worker := cs\<rparr>) = Running" by simp
  from loop_body_survives [OF known this alive] obtain r where
    r: "to_handle ?s1 = to_handle s @ [r]" "answers D s c r"
    by auto
  have "to_worker ?s1 = cs" by (simp del: loop_body.simps)
  with Cons.IH [of ?s1] alive known' run Cons.prems(4) obtain rs where
    rs: "length rs = length cs"
      "to_worker (worker_run D ?s1) = []" "to_handle (worker_run D ?s1) = to_handle ?s1 @ rs"
      "\<forall>i\<le>length cs. to_handle (worker_progress D i ?s1) = to_handle ?s1 @ take i rs"
      "\<forall>i<length cs. answers D (worker_progress D i ?s1) (cs ! i) (rs ! i)"
    by auto
  from step have prog: "worker_progress D (Suc j) s = worker_progress D j ?s1" for j
    by (simp del: loop_body.simps)
  have handles: "to_handle (worker_progress D i s) = to_handle s @ take i (r # rs)"
    if "i \<le> length (c # cs)" for i
  proof (cases i)
    case 0
    then show ?thesis by simp
  next
    case (Suc j)
    with that rs(4) r(1) show ?thesis by (simp add: prog del: loop_body.simps worker_progress.simps)
  qed
  have each: "answers D (worker_progress D i s) ((c # cs) ! i) ((r # rs) ! i)"
    if "i < length (c # cs)" for i
  proof (cases i)
    case 0
    with r(2) show ?thesis by simp
  next
    case (Suc j)
    with that rs(5) show ?thesis by (simp add: prog del: loop_body.simps worker_progress.simps)
  qed
  from rs r(1) run handles each have
    "length (r # rs) = length (c # cs)
        \<and> to_worker (worker_run D s) = []
        \<and> to_handle (worker_run D s) = to_handle s @ (r # rs)
        \<and> (\<forall>i\<le>length (c # cs). to_handle (worker_progress D i s) = to_handle s @ take i (r # rs))
        \<and> (\<forall>i<length (c # cs). answers D (worker_progress D i s) ((c # cs) ! i) ((r # rs) ! i))"
    by (simp del: loop_body.simps worker_progress.simps)
  then show ?case by blast
qed

text \<open>
  Claim C1, as amended. Let a running worker find in its pipe a sequence of recognized
  commands other than \<^verbatim>\<open>'quit'\<close>. If it dispatches them without raising (it is still running
  at the end), then it has taken them all and has sent exactly one response per command,
  appended in the order of the commands; the \<open>i\<close>-th of them is sent by the \<open>i\<close>-th dispatch
  and answers the \<open>i\<close>-th command. And it does dispatch them without raising whenever every
  \<^verbatim>\<open>'sample'\<close> comes after an \<^verbatim>\<open>'act'\<close> (of the sequence or dispatched before it) and no call of
  the model or of the buffer raises.
\<close>

theorem one_response_per_command:
  assumes "status s = Running"
    and "list_all recognized (to_worker s)"
  shows "(never_raises D \<and> sample_after_infer (bound s) (to_worker s) \<longrightarrow>
            status (worker_run D s) = Running)
         \<and> (status (worker_run D s) = Running \<longrightarrow>
              (\<exists>rs. length rs = length (to_worker s)
                 \<and> to_worker (worker_run D s) = []
                 \<and> to_handle (worker_run D s) = to_handle s @ rs
                 \<and> (\<forall>i<length (to_worker s).
                       to_handle (worker_progress D i s) = to_handle s @ take i rs
                       \<and> to_handle (worker_progress D (Suc i) s) = to_handle s @ take i rs @ [rs ! i]
                       \<and> answers D (worker_progress D i s) (to_worker s ! i) (rs ! i))))"
proof (intro conjI impI)
  assume "never_raises D \<and> sample_after_infer (bound s) (to_worker s)"
  with assms show "status (worker_run D s) = Running"
    by (simp add: worker_run_never_dies)
next
  assume "status (worker_run D s) = Running"
  from worker_run_survives [OF assms(1) refl assms(2) this] obtain rs where
    rs: "length rs = length (to_worker s)"
      "to_worker (worker_run D s) = []" "to_handle (worker_run D s) = to_handle s @ rs"
      "\<forall>i\<le>length (to_worker s). to_handle (worker_progress D i s) = to_handle s @ take i rs"
      "\<forall>i<length (to_worker s). answers D (worker_progress D i s) (to_worker s ! i) (rs ! i)"
    by blast
  have "to_handle (worker_progress D i s) = to_handle s @ take i rs
        \<and> to_handle (worker_progress D (Suc i) s) = to_handle s @ take i rs @ [rs ! i]
        \<and> answers D (worker_progress D i s) (to_worker s ! i) (rs ! i)"
    if "i < length (to_worker s)" for i
  proof -
    from that rs(4) have "to_handle (worker_progress D i s) = to_handle s @ take i rs"
      and "to_handle (worker_progress D (Suc i) s) = to_handle s @ take (Suc i) rs"
      by (simp_all del: worker_progress.simps)
    moreover from that rs(1) have "take (Suc i) rs = take i rs @ [rs ! i]"
      by (simp add: take_Suc_conv_app_nth)
    ultimately show ?thesis using that rs(5) by simp
  qed
  with rs(1-3) show "\<exists>rs. length rs = length (to_worker s)
                 \<and> to_worker (worker_run D s) = []
                 \<and> to_handle (worker_run D s) = to_handle s @ rs
                 \<and> (\<forall>i<length (to_worker s).
                       to_handle (worker_progress D i s) = to_handle s @ take i rs
                       \<and> to_handle (worker_progress D (Suc i) s) = to_handle s @ take i rs @ [rs ! i]
                       \<and> answers D (worker_progress D i s) (to_worker s ! i) (rs ! i))"
    by blast
qed

theorem one_response_per_command_witness:
  "status (worker_run base_deps
     ((spawn base_deps ())\<lparr>to_worker :=
        [Cmd ''act'' [PInt 1, PInt 2, PStr ''greedy'', PInt 0],
         Cmd ''sample'' [PInt 3, PInt 4],
         Cmd ''train'' [PInt 5000],
         Cmd ''save'' [PStr ''dir'', PInt 7],
         Cmd ''load'' [PStr ''dir'', PInt 7, PNone]]\<rparr>)) = Running
   \<and> to_handle (worker_run base_deps
     ((spawn base_deps ())\<lparr>to_worker :=
        [Cmd ''act'' [PInt 1, PInt 2, PStr ''greedy'', PInt 0],
         Cmd ''sample'' [PInt 3, PInt 4],
         Cmd ''train'' [PInt 5000],
         Cmd ''save'' [PStr ''dir'', PInt 7],
         Cmd ''load'' [PStr ''dir'', PInt 7, PNone]]\<rparr>))
     = [PNone, PStr ''done'', PTuple [PInt 0, PInt 0], PStr ''done'', PStr ''done'']"
proof -
  let ?cmds = "[Cmd ''act'' [PInt 1, PInt 2, PStr ''greedy'', PInt 0],
         Cmd ''sample'' [PInt 3, PInt 4],
         Cmd ''train'' [PInt 5000],
         Cmd ''save'' [PStr ''dir'', PInt 7],
         Cmd ''load'' [PStr ''dir'', PInt 7, PNone]]"
  let ?s = "(spawn base_deps ())\<lparr>to_worker := ?cmds\<rparr>"
  note inst = one_response_per_command [of ?s base_deps]
  have total: "never_raises base_deps"
    by (simp add: never_raises_def base_deps_def BaseModel_infer_action_def BaseModel_train_def
        BaseModel_save_def BaseModel_load_def journal_step_def)
  have pre: "status ?s = Running" "list_all recognized (to_worker ?s)"
    "sample_after_infer (bound ?s) (to_worker ?s)"
    by (simp_all add: spawn_def bound_def)
  from inst pre total have alive: "status (worker_run base_deps ?s) = Running"
    by blast
  with inst pre obtain rs where
    rs: "length rs = length (to_worker ?s)"
      "to_handle (worker_run base_deps ?s) = to_handle ?s @ rs"
    by blast
  let ?final = "(spawn base_deps ())
       \<lparr>obs := Some (PInt 1), ids := Some (PInt 2), acts := Some PNone,
        to_handle := [PNone, PStr ''done'', PTuple [PInt 0, PInt 0], PStr ''done'', PStr ''done'']\<rparr>"
  have five: "worker_progress base_deps 5 ?s = ?final"
    by (simp add: eval_nat_numeral worker_step_def worker_send_def spawn_def base_deps_def
        BaseModel_infer_action_def BaseModel_train_def BaseModel_save_def BaseModel_load_def
        journal_step_def)
  have "worker_run base_deps ?s = worker_run base_deps (worker_progress base_deps 5 ?s)"
    by (simp only: worker_run_progress)
  also have "\<dots> = ?final"
    by (simp only: five) (simp add: worker_run_stop worker_step_def spawn_def)
  finally have "to_handle (worker_run base_deps ?s) =
      [PNone, PStr ''done'', PTuple [PInt 0, PInt 0], PStr ''done'', PStr ''done'']"
    by simp
  with alive rs show ?thesis by simp
qed

text \<open>
  Claim C1, as stated, fails for a \<^verbatim>\<open>'sample'\<close> that no \<^verbatim>\<open>'act'\<close> precedes: a fresh worker
  hosting a \<^verbatim>\<open>BaseModel\<close> (which never raises) receives the recognized command
  \<^verbatim>\<open>["sample", 3, 4]\<close>, dies of \<^verbatim>\<open>UnboundLocalError\<close> and has sent no response.
\<close>

theorem one_response_per_command_counterexample:
  "list_all recognized [Cmd ''sample'' [PInt 3, PInt 4]]
   \<and> never_raises base_deps
   \<and> worker_run base_deps ((spawn base_deps ())\<lparr>to_worker := [Cmd ''sample'' [PInt 3, PInt 4]]\<rparr>)
       = (spawn base_deps ())\<lparr>status := Crashed UnboundLocalError\<rparr>
   \<and> to_handle (worker_run base_deps
         ((spawn base_deps ())\<lparr>to_worker := [Cmd ''sample'' [PInt 3, PInt 4]]\<rparr>)) = []"
proof -
  let ?s = "(spawn base_deps ())\<lparr>to_worker := [Cmd ''sample'' [PInt 3, PInt 4]]\<rparr>"
  let ?s' = "(spawn base_deps ())\<lparr>status := Crashed UnboundLocalError\<rparr> :: (unit, pyval list) system"
  have total: "never_raises base_deps"
    by (simp add: never_raises_def base_deps_def BaseModel_infer_action_def BaseModel_train_def
        BaseModel_save_def BaseModel_load_def journal_step_def)
  have step: "worker_step base_deps ?s = Some ?s'"
    by (simp add: worker_step_def spawn_def crash_def)
  have stop: "worker_step base_deps ?s' = None"
    by (simp add: worker_step_def)
  from step stop have "worker_run base_deps ?s = ?s'"
    by (simp add: worker_run_step worker_run_stop)
  with total show ?thesis by (simp add: spawn_def)
qed

end
